theory Spec2Isabelle
  imports Main "HOL-Library.AList"
begin

section \<open>Data model\<close>

text \<open>
  A document node is a Python object; it is identified here by a number (its object
  identity). Two references are the same node exactly when the numbers are equal, which
  is what membership in a Python set of nodes tests.
\<close>

type_synonym node = nat

text \<open>
  Dynamically typed Python values, as far as \<open>serialize_node\<close> tells them apart:
  scalars, lists, tuples, objects with an \<open>id\<close> attribute (nodes) and any other
  object, known only through \<open>str()\<close>, which returns a string or raises (\<open>None\<close>).
  A float is kept as an opaque pair: it is only ever copied.
\<close>

datatype pyval =
    PNone
  | PBool bool
  | PInt int
  | PFloat int int
  | PStr string
  | PList "pyval list"
  | PTuple "pyval list"
  | PNode node
  | PObj "string option"

text \<open>
  The plain nested structure built for \<open>json.dump\<close>: values copied verbatim, lists
  built by the serializer, and dictionaries with string keys (in insertion order).
\<close>

datatype json =
    Verbatim pyval
  | Arr "json list"
  | Obj "(string \<times> json) list"

text \<open>
  \<open>node.userdata\<close>: one optional field for each key this package reads or writes
  (\<open>None\<close> is "key absent"), the remaining keys in \<open>extra\<close>, and in \<open>key_order\<close> the
  keys of the dictionary in the order in which they were inserted.
\<close>

record userdata =
  leanok :: "bool option"
  mathlibok :: "bool option"
  notready :: "bool option"
  issue :: "string option"
  leandecls :: "string list option"
  uses :: "node list option"
  proved_by :: "node option"
  lean_urls :: "(string \<times> string) list option"
  can_state :: "bool option"
  can_prove :: "bool option"
  proved :: "bool option"
  fully_proved :: "bool option"
  extra :: "(string \<times> pyval) list"
  key_order :: "string list"

definition empty_userdata :: userdata where
  "empty_userdata = \<lparr> leanok = None, mathlibok = None, notready = None, issue = None,
     leandecls = None, uses = None, proved_by = None, lean_urls = None, can_state = None,
     can_prove = None, proved = None, fully_proved = None, extra = [], key_order = [] \<rparr>"

text \<open>
  What an assignment \<open>userdata[k] = v\<close> does to the order of the keys: a new key goes to
  the end, a key that is present keeps its place.
\<close>

definition put :: "string \<Rightarrow> userdata \<Rightarrow> userdata" where
  "put k u = (if k \<in> set (key_order u) then u else u\<lparr>key_order := key_order u @ [k]\<rparr>)"

text \<open>
  A node object: its \<open>id\<close>, the result of \<open>item_kind(node)\<close> (computed by the
  dependency-graph plugin from the node's environment), its caption (\<open>None\<close> when the
  attribute is missing or falsy, otherwise \<open>str(node.caption)\<close>), its truth value
  \<open>bool(node)\<close> and its userdata. A plasTeX node is a container of its child nodes: it is
  falsy when it has none.
\<close>

record node_obj =
  node_id :: string
  kind :: string
  caption :: "string option"
  is_truthy :: bool
  userdata :: userdata

text \<open>The heap maps every node reference to its object; references never dangle.\<close>

type_synonym heap = "node \<Rightarrow> node_obj"

definition ud :: "heap \<Rightarrow> node \<Rightarrow> userdata" where
  "ud h n = userdata (h n)"

definition set_ud :: "node \<Rightarrow> (userdata \<Rightarrow> userdata) \<Rightarrow> heap \<Rightarrow> heap" where
  "set_ud n f h = h(n := (h n)\<lparr>userdata := f (userdata (h n))\<rparr>)"

text \<open>Truthiness of \<open>userdata.get(flag)\<close>: an absent flag is \<open>None\<close>, which is falsy.\<close>

definition truthy :: "bool option \<Rightarrow> bool" where
  "truthy b = (b = Some True)"

text \<open>\<open>userdata.get('uses', [])\<close>\<close>

definition get_uses :: "heap \<Rightarrow> node \<Rightarrow> node list" where
  "get_uses h n = (case uses (ud h n) of None \<Rightarrow> [] | Some us \<Rightarrow> us)"

text \<open>
  A \<open>DepGraph\<close>: three Python sets (its reference to the document is left out). A set
  is modelled as the list of its elements in iteration order, without repetition;
  \<open>wf_graph\<close> says so of the three lists of a graph.
\<close>

record graph =
  nodes :: "node list"
  edges :: "(node \<times> node) list"
  proof_edges :: "(node \<times> node) list"

definition wf_graph :: "graph \<Rightarrow> bool" where
  "wf_graph g = (distinct (nodes g) \<and> distinct (edges g) \<and> distinct (proof_edges g))"

definition DepGraph :: graph where
  "DepGraph = \<lparr> nodes = [], edges = [], proof_edges = [] \<rparr>"

text \<open>\<open>s.add(x)\<close> and \<open>s.union(t)\<close> on sets kept as repetition-free lists.\<close>

definition set_add :: "'a \<Rightarrow> 'a list \<Rightarrow> 'a list" where
  "set_add x xs = (if x \<in> set xs then xs else xs @ [x])"

definition set_union :: "'a list \<Rightarrow> 'a list \<Rightarrow> 'a list" where
  "set_union xs ys = remdups (xs @ ys)"

text \<open>
  \<open>document.userdata['dep_graph']\<close>. The color table holds pairs (color, description):
  both places that write it store a pair of strings. The legend is a list of arbitrary
  values; the section-to-graph dictionary keeps its insertion order.
\<close>

type_synonym color_table = "(string \<times> (string \<times> string)) list"

record dep_graph_data =
  colors :: "color_table option"
  legend :: "pyval list option"
  graphs :: "(string \<times> graph) list option"
  nonreducedgraph :: "bool option"

record document =
  project_home :: "pyval option"
  project_github :: "string option"
  project_dochome :: "string option"
  lean_decls :: "string list option"
  working_dir :: "string option"
  dep_graph :: "dep_graph_data option"
  heap :: heap

datatype exn = KeyError string | Raised string

datatype log_entry =
    Warning_unknown_node_type string
  | Info_exported string
  | Warning_export_error exn
  | Warning_export_failed exn
  | Info_generated nat nat nat
  | Warning_subgraphs exn

section \<open>Markup commands\<close>

text \<open>
  A Python string is modelled by the bytes of its UTF-8 encoding. \<open>lstrip\<close> and \<open>rstrip\<close>
  with an argument remove the characters of a given set, here ASCII characters.
\<close>

definition lstrip :: "(char \<Rightarrow> bool) \<Rightarrow> string \<Rightarrow> string" where
  "lstrip p s = dropWhile p s"

definition rstrip :: "(char \<Rightarrow> bool) \<Rightarrow> string \<Rightarrow> string" where
  "rstrip p s = rev (dropWhile p (rev s))"

text \<open>
  \<open>str.strip()\<close> without an argument removes white space, which for a Python string is
  the code points U+0009 to U+000D, U+001C to U+0020, U+0085, U+00A0, U+1680, U+2000 to
  U+200A, U+2028, U+2029, U+202F, U+205F and U+3000; \<open>whitespace\<close> lists their encodings.
\<close>

definition whitespace :: "string list" where
  "whitespace =
     [[CHR 0x09], [CHR 0x0A], [CHR 0x0B], [CHR 0x0C], [CHR 0x0D],
      [CHR 0x1C], [CHR 0x1D], [CHR 0x1E], [CHR 0x1F], [CHR 0x20],
      [CHR 0xC2, CHR 0x85], [CHR 0xC2, CHR 0xA0], [CHR 0xE1, CHR 0x9A, CHR 0x80],
      [CHR 0xE2, CHR 0x80, CHR 0x80], [CHR 0xE2, CHR 0x80, CHR 0x81],
      [CHR 0xE2, CHR 0x80, CHR 0x82], [CHR 0xE2, CHR 0x80, CHR 0x83],
      [CHR 0xE2, CHR 0x80, CHR 0x84], [CHR 0xE2, CHR 0x80, CHR 0x85],
      [CHR 0xE2, CHR 0x80, CHR 0x86], [CHR 0xE2, CHR 0x80, CHR 0x87],
      [CHR 0xE2, CHR 0x80, CHR 0x88], [CHR 0xE2, CHR 0x80, CHR 0x89],
      [CHR 0xE2, CHR 0x80, CHR 0x8A], [CHR 0xE2, CHR 0x80, CHR 0xA8],
      [CHR 0xE2, CHR 0x80, CHR 0xA9], [CHR 0xE2, CHR 0x80, CHR 0xAF],
      [CHR 0xE2, CHR 0x81, CHR 0x9F], [CHR 0xE3, CHR 0x80, CHR 0x80]]"

text \<open>
  One step removes one of the given sequences from the front, if the string starts with
  one; every step that removes something shortens the string, so \<open>length s\<close> steps
  remove them all. The end of the string is stripped on the reversed string.
\<close>

definition strip_step :: "string list \<Rightarrow> string \<Rightarrow> string" where
  "strip_step seqs s =
     (case List.find (\<lambda>w. take (length w) s = w) seqs of
        None \<Rightarrow> s
      | Some w \<Rightarrow> drop (length w) s)"

definition strip_front :: "string list \<Rightarrow> string \<Rightarrow> string" where
  "strip_front seqs s = (strip_step seqs ^^ length s) s"

definition strip :: "string \<Rightarrow> string" where
  "strip s = rev (strip_front (map rev whitespace) (rev (strip_front whitespace s)))"

text \<open>
  The commands of the package with their parsed arguments. \<open>Home\<close> stores the
  argument object itself; \<open>Github\<close> and \<open>Dochome\<close> take its text content.
\<close>

datatype command =
    Home pyval
  | Github string
  | Dochome string
  | Graphcolor string string string
  | Leanok
  | Notready
  | Mathlibok
  | Lean "string list"
  | Discussion string

text \<open>
  \<open>invoke\<close>/\<open>digest\<close> of a command whose parent node is \<open>n\<close>: the document after the
  command, what was logged, and the exception if one was raised (\<open>graphcolor\<close> indexes
  \<open>userdata['dep_graph']['colors']\<close>).
\<close>

fun digest :: "node \<Rightarrow> command \<Rightarrow> document \<Rightarrow> document \<times> log_entry list \<times> exn option" where
  "digest n (Home url) d = (d\<lparr>project_home := Some url\<rparr>, [], None)"
| "digest n (Github url) d =
     (d\<lparr>project_github := Some (rstrip (\<lambda>c. c = CHR ''/'') url)\<rparr>, [], None)"
| "digest n (Dochome url) d = (d\<lparr>project_dochome := Some url\<rparr>, [], None)"
| "digest n (Graphcolor node_type color color_descr) d =
     (case dep_graph d of
        None \<Rightarrow> (d, [], Some (KeyError ''dep_graph''))
      | Some dg \<Rightarrow>
         (case colors dg of
            None \<Rightarrow> (d, [], Some (KeyError ''colors''))
          | Some cs \<Rightarrow>
             (d\<lparr>dep_graph := Some (dg\<lparr>colors :=
                   Some (AList.update node_type (strip color, strip color_descr) cs)\<rparr>)\<rparr>,
              (if map_of cs node_type = None then [Warning_unknown_node_type node_type] else []),
              None)))"
| "digest n Leanok d =
     (d\<lparr>heap := set_ud n (\<lambda>u. (put ''leanok'' u)\<lparr>leanok := Some True\<rparr>) (heap d)\<rparr>, [], None)"
| "digest n Notready d =
     (d\<lparr>heap := set_ud n (\<lambda>u. (put ''notready'' u)\<lparr>notready := Some True\<rparr>) (heap d)\<rparr>, [], None)"
| "digest n Mathlibok d =
     (d\<lparr>heap := set_ud n (\<lambda>u. (put ''mathlibok'' u)\<lparr>mathlibok := Some True\<rparr>)
                 (set_ud n (\<lambda>u. (put ''leanok'' u)\<lparr>leanok := Some True\<rparr>) (heap d))\<rparr>,
      [], None)"
| "digest n (Lean decls) d =
     (let ds = map strip decls in
      (d\<lparr>heap := set_ud n (\<lambda>u. (put ''leandecls'' u)\<lparr>leandecls := Some ds\<rparr>) (heap d),
         lean_decls := Some ((case lean_decls d of None \<Rightarrow> [] | Some a \<Rightarrow> a) @ ds)\<rparr>,
       [], None))"
| "digest n (Discussion i) d =
     (d\<lparr>heap := set_ud n
          (\<lambda>u. (put ''issue'' u)\<lparr>issue := Some (strip (lstrip (\<lambda>c. c = CHR ''#'') i))\<rparr>)
          (heap d)\<rparr>,
      [], None)"

text \<open>
  A run of commands, each with its parent node. An exception ends the run; the document
  keeps what was written before it.
\<close>

fun digest_all :: "(node \<times> command) list \<Rightarrow> document \<Rightarrow> document \<times> exn option" where
  "digest_all [] d = (d, None)"
| "digest_all ((n, c) # cs) d =
     (case digest n c d of
        (d', _, Some e) \<Rightarrow> (d', Some e)
      | (d', _, None) \<Rightarrow> digest_all cs d')"

section \<open>Status propagation (\<open>make_lean_data\<close>)\<close>

text \<open>
  The body of the first loop for one node. \<open>used\<close> is the node's own \<open>uses\<close> list when
  the key is present, so \<open>used.extend(...)\<close> changes that list in the node's userdata;
  when the key is absent \<open>used\<close> is a fresh list and the node is not changed by it.
  Every node owns its list: no list object is shared by two nodes. \<open>if proof:\<close> tests
  the truth value of the proof object: the branch of a proof is taken when the key
  \<open>proved_by\<close> is present and the proof node is truthy; \<open>no_proof\<close> is the other branch.
\<close>

definition node_status :: "string \<Rightarrow> node \<Rightarrow> heap \<Rightarrow> heap" where
  "node_status dochome n h0 =
     (let decls = (case leandecls (ud h0 n) of None \<Rightarrow> [] | Some ds \<Rightarrow> ds);
          urls = map (\<lambda>decl. (decl, dochome @ ''/find/#doc/'' @ decl)) decls;
          h1 = set_ud n (\<lambda>u. (put ''lean_urls'' u)\<lparr>lean_urls := Some urls\<rparr>) h0;
          used = get_uses h1 n;
          h2 = set_ud n (\<lambda>u. (put ''can_state'' u)\<lparr>can_state :=
                          Some (list_all (\<lambda>thm. truthy (leanok (ud h1 thm))) used
                                \<and> \<not> truthy (notready (ud h1 n)))\<rparr>) h1;
          no_proof = set_ud n (\<lambda>u. (put ''proved'' u)\<lparr>proved := Some False\<rparr>)
                       (set_ud n (\<lambda>u. (put ''can_prove'' u)\<lparr>can_prove := Some False\<rparr>) h2)
      in case proved_by (ud h2 n) of
           None \<Rightarrow> no_proof
         | Some proof \<Rightarrow>
             if is_truthy (h2 proof) then
               (let used' = used @ get_uses h2 proof;
                    h3 = (if uses (ud h2 n) = None then h2
                          else set_ud n (\<lambda>u. u\<lparr>uses := Some used'\<rparr>) h2);
                    h4 = set_ud n (\<lambda>u. (put ''can_prove'' u)\<lparr>can_prove :=
                            Some (list_all (\<lambda>thm. truthy (leanok (ud h3 thm))) used')\<rparr>) h3
                in set_ud n (\<lambda>u. (put ''proved'' u)\<lparr>proved :=
                            Some (case leanok (ud h4 proof) of None \<Rightarrow> False | Some b \<Rightarrow> b)\<rparr>) h4)
             else no_proof)"

text \<open>The first loop: every node of the graph, in the set's iteration order.\<close>

fun status_loop :: "string \<Rightarrow> node list \<Rightarrow> heap \<Rightarrow> heap" where
  "status_loop dochome [] h = h"
| "status_loop dochome (n # ns) h = status_loop dochome ns (node_status dochome n h)"

text \<open>
  The second loop. \<open>graph.ancestors\<close> belongs to the dependency-graph plugin and is a
  parameter \<open>anc\<close>: the set of ancestors of a node in a graph.
\<close>

definition node_fully_proved :: "(graph \<Rightarrow> node \<Rightarrow> node list) \<Rightarrow> graph \<Rightarrow> node \<Rightarrow> heap \<Rightarrow> heap" where
  "node_fully_proved anc g n h =
     set_ud n (\<lambda>u. (put ''fully_proved'' u)\<lparr>fully_proved :=
        Some (list_all (\<lambda>m. truthy (proved (ud h m)) \<or> kind (h m) = ''definition'')
                (set_union (anc g n) [n]))\<rparr>) h"

fun fully_proved_loop :: "(graph \<Rightarrow> node \<Rightarrow> node list) \<Rightarrow> graph \<Rightarrow> node list \<Rightarrow> heap \<Rightarrow> heap" where
  "fully_proved_loop anc g [] h = h"
| "fully_proved_loop anc g (n # ns) h = fully_proved_loop anc g ns (node_fully_proved anc g n h)"

text \<open>The body of the loop over the graphs, and that loop.\<close>

definition graph_pass :: "(graph \<Rightarrow> node \<Rightarrow> node list) \<Rightarrow> string \<Rightarrow> graph \<Rightarrow> heap \<Rightarrow> heap" where
  "graph_pass anc dochome g h =
     fully_proved_loop anc g (nodes g) (status_loop dochome (nodes g) h)"

fun graphs_loop :: "(graph \<Rightarrow> node \<Rightarrow> node list) \<Rightarrow> string \<Rightarrow> graph list \<Rightarrow> heap \<Rightarrow> heap" where
  "graphs_loop anc dochome [] h = h"
| "graphs_loop anc dochome (g # gs) h = graphs_loop anc dochome gs (graph_pass anc dochome g h)"

fun join_lines :: "string list \<Rightarrow> string" where
  "join_lines [] = []"
| "join_lines [x] = x"
| "join_lines (x # y # ys) = x @ [CHR 0x0A] @ join_lines (y # ys)"

text \<open>
  \<open>make_lean_data\<close>: the document after the pass and the text written to the file
  \<open>lean_decls\<close>, or the \<open>KeyError\<close> of a missing key. The loops run before the
  \<open>working-dir\<close> key is read, so the heap is updated also when that key is missing.
\<close>

definition make_lean_data :: "(graph \<Rightarrow> node \<Rightarrow> node list) \<Rightarrow> document \<Rightarrow> document \<times> (exn + string)" where
  "make_lean_data anc d =
     (let dochome = (case project_dochome d of
                       None \<Rightarrow> ''https://leanprover-community.github.io/mathlib4_docs''
                     | Some u \<Rightarrow> u)
      in case dep_graph d of
           None \<Rightarrow> (d, Inl (KeyError ''dep_graph''))
         | Some dg \<Rightarrow>
            (case graphs dg of
               None \<Rightarrow> (d, Inl (KeyError ''graphs''))
             | Some gs \<Rightarrow>
                (let d' = d\<lparr>heap := graphs_loop anc dochome (map snd gs) (heap d)\<rparr>
                 in case working_dir d of
                      None \<Rightarrow> (d', Inl (KeyError ''working-dir''))
                    | Some w \<Rightarrow>
                       (d', Inr (join_lines (case lean_decls d of None \<Rightarrow> [] | Some a \<Rightarrow> a))))))"

section \<open>Serialization\<close>

text \<open>\<open>node.id.split(':')[-1]\<close>: what follows the last colon.\<close>

definition last_segment :: "string \<Rightarrow> string" where
  "last_segment s = rev (takeWhile (\<lambda>c. c \<noteq> CHR '':'') (rev s))"

text \<open>
  \<open>serialize_node\<close>, the branch for one item of a list or tuple: a scalar is kept, a nested
  list or tuple becomes a list, a node becomes its id, anything else its \<open>str()\<close>; an item
  whose \<open>str()\<close> raises is left out (\<open>None\<close>).
\<close>

fun serialize_item :: "heap \<Rightarrow> pyval \<Rightarrow> pyval option" where
  "serialize_item h PNone = Some PNone"
| "serialize_item h (PBool b) = Some (PBool b)"
| "serialize_item h (PInt i) = Some (PInt i)"
| "serialize_item h (PFloat m e) = Some (PFloat m e)"
| "serialize_item h (PStr s) = Some (PStr s)"
| "serialize_item h (PList xs) = Some (PList xs)"
| "serialize_item h (PTuple xs) = Some (PList xs)"
| "serialize_item h (PNode n) = Some (PStr (node_id (h n)))"
| "serialize_item h (PObj s) = map_option PStr s"

text \<open>The branch for one userdata value; \<open>None\<close> when the key is left out.\<close>

fun serialize_value :: "heap \<Rightarrow> pyval \<Rightarrow> json option" where
  "serialize_value h PNone = Some (Verbatim PNone)"
| "serialize_value h (PBool b) = Some (Verbatim (PBool b))"
| "serialize_value h (PInt i) = Some (Verbatim (PInt i))"
| "serialize_value h (PFloat m e) = Some (Verbatim (PFloat m e))"
| "serialize_value h (PStr s) = Some (Verbatim (PStr s))"
| "serialize_value h (PList xs) = Some (Arr (map Verbatim (List.map_filter (serialize_item h) xs)))"
| "serialize_value h (PTuple xs) = Some (Arr (map Verbatim (List.map_filter (serialize_item h) xs)))"
| "serialize_value h (PNode n) = Some (Verbatim (PStr (node_id (h n))))"
| "serialize_value h (PObj s) = map_option (\<lambda>t. Verbatim (PStr t)) s"

text \<open>
  The userdata record seen as the dictionary it is: \<open>userdata_value u k\<close> is the value
  under the key \<open>k\<close>, if the key is present, and \<open>userdata_items u\<close> lists the keys with
  their values in the dictionary's order. The keys in \<open>extra\<close> are other than the named
  ones.
\<close>

definition userdata_value :: "userdata \<Rightarrow> string \<Rightarrow> pyval option" where
  "userdata_value u k =
     (if k = ''leanok'' then map_option PBool (leanok u)
      else if k = ''mathlibok'' then map_option PBool (mathlibok u)
      else if k = ''notready'' then map_option PBool (notready u)
      else if k = ''issue'' then map_option PStr (issue u)
      else if k = ''leandecls'' then map_option (\<lambda>ds. PList (map PStr ds)) (leandecls u)
      else if k = ''uses'' then map_option (\<lambda>us. PList (map PNode us)) (uses u)
      else if k = ''proved_by'' then map_option PNode (proved_by u)
      else if k = ''lean_urls'' then
        map_option (\<lambda>ls. PList (map (\<lambda>(a, b). PTuple [PStr a, PStr b]) ls)) (lean_urls u)
      else if k = ''can_state'' then map_option PBool (can_state u)
      else if k = ''can_prove'' then map_option PBool (can_prove u)
      else if k = ''proved'' then map_option PBool (proved u)
      else if k = ''fully_proved'' then map_option PBool (fully_proved u)
      else map_of (extra u) k)"

definition userdata_items :: "userdata \<Rightarrow> (string \<times> pyval) list" where
  "userdata_items u =
     List.map_filter (\<lambda>k. map_option (Pair k) (userdata_value u k)) (key_order u)"

definition serialize_node :: "heap \<Rightarrow> node \<Rightarrow> json" where
  "serialize_node h n =
     Obj ([(''id'', Verbatim (PStr (node_id (h n)))),
           (''kind'', Verbatim (PStr (kind (h n))))]
          @ (case caption (h n) of
               Some c \<Rightarrow> [(''caption'', Verbatim (PStr c))]
             | None \<Rightarrow> [(''title'', Verbatim (PStr (last_segment (node_id (h n)))))])
          @ [(''userdata'',
              Obj (List.map_filter (\<lambda>(k, v). map_option (Pair k) (serialize_value h v))
                     (userdata_items (ud h n))))])"

definition serialize_graph :: "heap \<Rightarrow> graph \<Rightarrow> json" where
  "serialize_graph h g =
     (let ns = map (serialize_node h) (nodes g);
          es = map (\<lambda>(s, t). Verbatim (PTuple [PStr (node_id (h s)), PStr (node_id (h t))])) (edges g);
          ps = map (\<lambda>(s, t). Verbatim (PTuple [PStr (node_id (h s)), PStr (node_id (h t))]))
                 (proof_edges g)
      in Obj [(''nodes'', Arr ns),
              (''edges'', Arr es),
              (''proof_edges'', Arr ps),
              (''node_count'', Verbatim (PInt (int (length ns)))),
              (''edge_count'', Verbatim (PInt (int (length es)))),
              (''proof_edge_count'', Verbatim (PInt (int (length ps))))])"

text \<open>\<open>d[k]\<close> on a serialized dictionary.\<close>

fun field :: "json \<Rightarrow> string \<Rightarrow> json option" where
  "field (Obj kvs) k = map_of kvs k"
| "field j k = None"

fun keys :: "json \<Rightarrow> string list" where
  "keys (Obj kvs) = map fst kvs"
| "keys j = []"

section \<open>Export\<close>

text \<open>A legend entry: a list or tuple of length two becomes a dictionary.\<close>

fun legend_entry :: "pyval \<Rightarrow> json" where
  "legend_entry (PList [a, b]) = Obj [(''label'', Verbatim a), (''description'', Verbatim b)]"
| "legend_entry (PTuple [a, b]) = Obj [(''label'', Verbatim a), (''description'', Verbatim b)]"
| "legend_entry v = Verbatim v"

definition opt_str :: "string option \<Rightarrow> pyval" where
  "opt_str s = (case s of None \<Rightarrow> PNone | Some t \<Rightarrow> PStr t)"

text \<open>
  The structure \<open>data\<close> that \<open>export_to_json\<close> builds before it opens the file. Every
  value of the color table is a pair, so the test for a sequence of length two holds.
\<close>

definition export_data :: "document \<Rightarrow> json" where
  "export_data d =
     Obj ([(''project_metadata'',
             Obj [(''project_home'', Verbatim (case project_home d of None \<Rightarrow> PNone | Some v \<Rightarrow> v)),
                  (''project_github'', Verbatim (opt_str (project_github d))),
                  (''project_dochome'', Verbatim (opt_str (project_dochome d)))]),
           (''lean_decls'',
             Verbatim (PList (map PStr (case lean_decls d of None \<Rightarrow> [] | Some a \<Rightarrow> a))))]
          @ (case dep_graph d of
               None \<Rightarrow> []
             | Some dg \<Rightarrow>
                [(''dep_graph'',
                   Obj [(''colors'',
                          Obj (map (\<lambda>(key, (c, descr)).
                                 (key, Obj [(''color'', Verbatim (PStr c)),
                                            (''description'', Verbatim (PStr descr))]))
                               (case colors dg of None \<Rightarrow> [] | Some cs \<Rightarrow> cs))),
                        (''legend'',
                          Arr (map legend_entry (case legend dg of None \<Rightarrow> [] | Some l \<Rightarrow> l))),
                        (''graphs'',
                          Obj (map (\<lambda>(sec_name, g). (sec_name, serialize_graph (heap d) g))
                               (case graphs dg of None \<Rightarrow> [] | Some gs \<Rightarrow> gs)))])]))"

text \<open>
  The files on disk: a complete JSON file, a complete page of a subgraph, or a file that
  was opened for writing and whose writer raised before the end (\<open>Partial\<close>: the file
  exists, empty or with the beginning of the text).
\<close>

datatype file_content = Json json | Html graph | Partial

type_synonym disk = "string \<rightharpoonup> file_content"

datatype render_result = Rendered | Failed_before_dump exn | Failed_in_dump exn

text \<open>
  What the package asks of its surroundings; each call returns or raises.
  \<open>build_error\<close> is the exception, if any, raised while \<open>export_to_json\<close> builds its
  structure, before the \<open>try\<close> block (by \<open>Path\<close>, \<open>item_kind\<close>, \<open>str(node.caption)\<close> or
  an attribute of a document object); \<open>open_error path\<close> is that of \<open>open(path, 'w')\<close>,
  which creates or empties the file when it does not raise; \<open>dump_error data\<close> is that of
  \<open>json.dump\<close> on the open file. \<open>template\<close> is the search for the graph template (\<open>None\<close>
  when no file is found) and the reading of it; \<open>render tpl sub n target\<close> is \<open>to_dot\<close>,
  \<open>tred\<close> (unless \<open>nonreducedgraph\<close> is set), the rendering of the template and the dump to
  the target file, and says whether a failure came before or after the target file was
  opened.
\<close>

record world =
  path_parent :: "string \<Rightarrow> string"
  build_error :: "exn option"
  open_error :: "string \<Rightarrow> exn option"
  dump_error :: "json \<Rightarrow> exn option"
  template :: "(exn + string) option"
  render :: "string \<Rightarrow> graph \<Rightarrow> node \<Rightarrow> string \<Rightarrow> render_result"



section \<open>Subgraphs\<close>

definition subgraph :: "(graph \<Rightarrow> node \<Rightarrow> node list) \<Rightarrow> graph \<Rightarrow> node \<Rightarrow> graph option" where
  "subgraph anc g n =
     (if n \<notin> set (nodes g) then None
      else
        (let subgraph_nodes = set_union (anc g n) [n];
             sub = DepGraph\<lparr>nodes := subgraph_nodes\<rparr>;
             sub1 = fold (\<lambda>(s, t) sb.
                      if s \<in> set subgraph_nodes \<and> t \<in> set subgraph_nodes
                      then sb\<lparr>edges := set_add (s, t) (edges sb)\<rparr> else sb) (edges g) sub;
             sub2 = fold (\<lambda>(s, t) sb.
                      if s \<in> set subgraph_nodes \<and> t \<in> set subgraph_nodes
                      then sb\<lparr>proof_edges := set_add (s, t) (proof_edges sb)\<rparr> else sb)
                      (proof_edges g) sub1
         in Some sub2))"

definition graph_target :: "heap \<Rightarrow> node \<Rightarrow> string" where
  "graph_target h n =
     ''subgraph_''
     @ map (\<lambda>c. if c = CHR '':'' \<or> c = CHR ''/'' then CHR ''_'' else c) (node_id (h n))
     @ ''.html''"

text \<open>
  The loop over the nodes of one graph: the files so far or the exception raised, and
  the disk. A file rendered before a failure stays on disk.
\<close>

fun subgraph_nodes_loop ::
  "world \<Rightarrow> (graph \<Rightarrow> node \<Rightarrow> node list) \<Rightarrow> heap \<Rightarrow> string \<Rightarrow> graph \<Rightarrow> node list \<Rightarrow> string list
     \<Rightarrow> disk \<Rightarrow> (exn + string list) \<times> disk" where
  "subgraph_nodes_loop w anc h tpl g [] files dk = (Inr files, dk)"
| "subgraph_nodes_loop w anc h tpl g (n # ns) files dk =
     (case subgraph anc g n of
        None \<Rightarrow> subgraph_nodes_loop w anc h tpl g ns files dk
      | Some sub \<Rightarrow>
         if length (nodes sub) > 1 then
           (case render w tpl sub n (graph_target h n) of
              Failed_before_dump e \<Rightarrow> (Inl e, dk)
            | Failed_in_dump e \<Rightarrow> (Inl e, dk(graph_target h n \<mapsto> Partial))
            | Rendered \<Rightarrow>
               subgraph_nodes_loop w anc h tpl g ns (files @ [graph_target h n])
                 (dk(graph_target h n \<mapsto> Html sub)))
         else subgraph_nodes_loop w anc h tpl g ns files dk)"




section \<open>Colors\<close>

definition default_colors :: color_table where
  "default_colors =
     [(''mathlib'', (''darkgreen'', ''Dark green'')),
      (''stated'', (''green'', ''Green'')),
      (''can_state'', (''blue'', ''Blue'')),
      (''not_ready'', (''#FFAA33'', ''Orange'')),
      (''proved'', (''#9CEC8B'', ''Green'')),
      (''can_prove'', (''#A3D6FF'', ''Blue'')),
      (''defined'', (''#B0ECA3'', ''Light green'')),
      (''fully_proved'', (''#1CAC78'', ''Dark green''))]"

text \<open>\<open>colors[key][0]\<close>\<close>

definition color_of :: "color_table \<Rightarrow> string \<Rightarrow> exn + string" where
  "color_of cs key = (case map_of cs key of None \<Rightarrow> Inl (KeyError key) | Some (c, descr) \<Rightarrow> Inr c)"

definition colorizer :: "color_table \<Rightarrow> heap \<Rightarrow> node \<Rightarrow> exn + string" where
  "colorizer cs h n =
     (let data = ud h n in
      if truthy (mathlibok data) then color_of cs ''mathlib''
      else if truthy (leanok data) then color_of cs ''stated''
      else if truthy (can_state data) then color_of cs ''can_state''
      else if truthy (notready data) then color_of cs ''not_ready''
      else Inr '''')"

definition fillcolorizer :: "color_table \<Rightarrow> heap \<Rightarrow> node \<Rightarrow> exn + string" where
  "fillcolorizer cs h n =
     (let data = ud h n;
          stated = truthy (leanok data);
          can_state' = truthy (can_state data);
          can_prove' = truthy (can_prove data);
          proved' = truthy (proved data);
          fully_proved' = truthy (fully_proved data)
      in case (if proved' then color_of cs ''proved''
               else if can_prove' \<and> (can_state' \<or> stated) then color_of cs ''can_prove''
               else Inr '''') of
           Inl e \<Rightarrow> Inl e
         | Inr fillcolor \<Rightarrow>
            if kind (h n) = ''definition'' then
              (if stated then color_of cs ''defined''
               else if can_state' then color_of cs ''can_prove''
               else Inr fillcolor)
            else if fully_proved' then color_of cs ''fully_proved''
            else Inr fillcolor)"

section \<open>The contract of the status propagator\<close>

text \<open>
  The four derived flags as the specification words them, over a heap \<open>h\<close>: \<open>U(n)\<close> is
  \<open>get_uses h n\<close>, \<open>P(n)\<close> is the \<open>proved_by\<close> entry, a flag holds when it is present and
  true. They are compared below with what the loops of \<open>make_lean_data\<close> store.
  \<open>proofs_unproved\<close> says that the proof node of each listed node has no proof of its own,
  \<open>proofs_truthy\<close> that it is truthy; \<open>visit_proved\<close> is what a visit of a node stores
  under \<open>proved\<close>: the \<open>leanok\<close> flag of its proof node when that node is truthy;
  \<open>flags_invariant\<close> is the invariant "mathlibok implies leanok" of a heap.
\<close>

definition spec_can_state :: "heap \<Rightarrow> node \<Rightarrow> bool" where
  "spec_can_state h n =
     ((\<forall>u \<in> set (get_uses h n). truthy (leanok (ud h u))) \<and> \<not> truthy (notready (ud h n)))"

definition spec_can_prove :: "heap \<Rightarrow> node \<Rightarrow> bool" where
  "spec_can_prove h n =
     (case proved_by (ud h n) of
        None \<Rightarrow> False
      | Some p \<Rightarrow> (\<forall>u \<in> set (get_uses h n) \<union> set (get_uses h p). truthy (leanok (ud h u))))"

definition spec_proved :: "heap \<Rightarrow> node \<Rightarrow> bool" where
  "spec_proved h n =
     (case proved_by (ud h n) of None \<Rightarrow> False | Some p \<Rightarrow> truthy (leanok (ud h p)))"

definition proofs_unproved :: "heap \<Rightarrow> node list \<Rightarrow> bool" where
  "proofs_unproved h ns =
     (\<forall>n \<in> set ns. case proved_by (ud h n) of None \<Rightarrow> True | Some p \<Rightarrow> proved_by (ud h p) = None)"

definition proofs_truthy :: "heap \<Rightarrow> node list \<Rightarrow> bool" where
  "proofs_truthy h ns =
     (\<forall>n \<in> set ns. case proved_by (ud h n) of None \<Rightarrow> True | Some p \<Rightarrow> is_truthy (h p))"

definition visit_proved :: "heap \<Rightarrow> node \<Rightarrow> bool" where
  "visit_proved h n =
     (case proved_by (ud h n) of
        None \<Rightarrow> False
      | Some p \<Rightarrow> is_truthy (h p) \<and> truthy (leanok (ud h p)))"

definition spec_fully_proved :: "(graph \<Rightarrow> node \<Rightarrow> node list) \<Rightarrow> graph \<Rightarrow> heap \<Rightarrow> node \<Rightarrow> bool" where
  "spec_fully_proved anc g h n =
     (\<forall>m \<in> set (anc g n) \<union> {n}. truthy (proved (ud h m)) \<or> kind (h m) = ''definition'')"

definition flags_invariant :: "heap \<Rightarrow> bool" where
  "flags_invariant h = (\<forall>n. truthy (mathlibok (ud h n)) \<longrightarrow> truthy (leanok (ud h n)))"

section \<open>Small documents\<close>

text \<open>
  A definition \<open>A\<close> (node 0), a theorem \<open>B\<close> (node 1) that uses \<open>A\<close> and is proved by the
  proof node 2, whose proof uses the lemma \<open>C\<close> (node 3). The graph holds the three
  statements; the proof node is not one of its nodes. In \<open>empty_proof_heap\<close> the proof
  environment of \<open>B\<close> is empty: the proof node has no child and no userdata.
\<close>

definition example_heap :: heap where
  "example_heap =
     (\<lambda>_. \<lparr> node_id = '''', kind = '''', caption = None, is_truthy = False,
            userdata = empty_userdata \<rparr>)
     (0 := \<lparr> node_id = ''def:A'', kind = ''definition'', caption = None, is_truthy = True,
             userdata = empty_userdata\<lparr>leanok := Some True, key_order := [''leanok'']\<rparr> \<rparr>,
      1 := \<lparr> node_id = ''thm:B'', kind = ''theorem'', caption = Some ''B'', is_truthy = True,
             userdata = empty_userdata\<lparr>uses := Some [0], proved_by := Some 2,
                                       key_order := [''uses'', ''proved_by'']\<rparr> \<rparr>,
      2 := \<lparr> node_id = '''', kind = ''theorem'', caption = None, is_truthy = True,
             userdata = empty_userdata\<lparr>leanok := Some True, uses := Some [3],
                                       key_order := [''uses'', ''leanok'']\<rparr> \<rparr>,
      3 := \<lparr> node_id = ''lem:C'', kind = ''lemma'', caption = None, is_truthy = True,
             userdata = empty_userdata\<lparr>leanok := Some True, key_order := [''leanok'']\<rparr> \<rparr>)"

definition example_graph :: graph where
  "example_graph = \<lparr> nodes = [0, 1, 3], edges = [(0, 1)], proof_edges = [(3, 1)] \<rparr>"

definition example_anc :: "graph \<Rightarrow> node \<Rightarrow> node list" where
  "example_anc g n = (if n = 1 then [0, 3] else [])"

definition example_document :: document where
  "example_document =
     \<lparr> project_home = None, project_github = Some ''https://github.com/o/p'',
       project_dochome = None, lean_decls = Some [''Foo.bar''], working_dir = Some ''/w/web'',
       dep_graph = Some \<lparr> colors = Some default_colors, legend = Some [],
                          graphs = Some [(''Chapter 1'', example_graph)],
                          nonreducedgraph = None \<rparr>,
       heap = example_heap \<rparr>"

definition empty_proof_heap :: heap where
  "empty_proof_heap =
     example_heap
     (2 := \<lparr> node_id = '''', kind = ''theorem'', caption = None, is_truthy = False,
             userdata = empty_userdata \<rparr>)"

definition empty_proof_document :: document where
  "empty_proof_document = example_document\<lparr>heap := empty_proof_heap\<rparr>"

text \<open>
  In \<open>shared_document\<close> the lemma \<open>C\<close> is not formalized and the theorem \<open>B\<close> belongs to the
  graphs of two sections.
\<close>

definition shared_heap :: heap where
  "shared_heap =
     example_heap
     (3 := \<lparr> node_id = ''lem:C'', kind = ''lemma'', caption = None, is_truthy = True,
             userdata = empty_userdata \<rparr>)"

definition shared_document :: document where
  "shared_document =
     example_document\<lparr>dep_graph := Some \<lparr> colors = Some default_colors, legend = Some [],
                            graphs = Some [(''Chapter 1'', example_graph),
                                           (''Chapter 2'',
                                            \<lparr> nodes = [1], edges = [], proof_edges = [] \<rparr>)],
                            nonreducedgraph = None \<rparr>,
                       heap := shared_heap\<rparr>"




text \<open>
  \<open>failing_world\<close> refuses to open any file for writing and has no working renderer. In
  \<open>dump_failing_world\<close> files can be opened, \<open>json.dump\<close> raises on the structure, and the
  renderer writes the page of \<open>C\<close> and then fails while it writes that of \<open>B\<close>.
\<close>

definition failing_world :: world where
  "failing_world =
     \<lparr> path_parent = (\<lambda>p. ''/w''),
       build_error = None,
       open_error = (\<lambda>p. Some (Raised ''Permission denied'')),
       dump_error = (\<lambda>j. None),
       template = Some (Inr ''tpl''),
       render = (\<lambda>tpl sub n target. Failed_before_dump (Raised ''dot not found'')) \<rparr>"


text \<open>A heap of nodes without userdata, and one node for each branch of the border colorizer.\<close>

definition fresh_heap :: heap where
  "fresh_heap =
     (\<lambda>_. \<lparr> node_id = '''', kind = '''', caption = None, is_truthy = False,
            userdata = empty_userdata \<rparr>)"

definition color_heap :: heap where
  "color_heap =
     fresh_heap
     (0 := \<lparr> node_id = ''thm:M'', kind = ''theorem'', caption = None, is_truthy = True,
             userdata = empty_userdata\<lparr>leanok := Some True, mathlibok := Some True,
                                       key_order := [''leanok'', ''mathlibok'']\<rparr> \<rparr>,
      1 := \<lparr> node_id = ''def:D'', kind = ''definition'', caption = None, is_truthy = True,
             userdata = empty_userdata\<lparr>leanok := Some True, fully_proved := Some True,
                                       key_order := [''leanok'', ''fully_proved'']\<rparr> \<rparr>,
      2 := \<lparr> node_id = ''thm:S'', kind = ''theorem'', caption = None, is_truthy = True,
             userdata = empty_userdata\<lparr>can_state := Some True, key_order := [''can_state'']\<rparr> \<rparr>,
      3 := \<lparr> node_id = ''thm:C'', kind = ''theorem'', caption = None, is_truthy = True,
             userdata = empty_userdata\<lparr>notready := Some True, key_order := [''notready'']\<rparr> \<rparr>)"

section \<open>Frame and value lemmas for the propagation loops\<close>

lemma ud_set_ud: "ud (set_ud n f h) m = (if m = n then f (ud h n) else ud h m)"
  by (simp add: ud_def set_ud_def)

lemma set_ud_other: "m \<noteq> n \<Longrightarrow> set_ud n f h m = h m"
  by (simp add: set_ud_def)

lemma set_ud_attrs:
  "kind (set_ud n f h m) = kind (h m)"
  "node_id (set_ud n f h m) = node_id (h m)"
  "caption (set_ud n f h m) = caption (h m)"
  "is_truthy (set_ud n f h m) = is_truthy (h m)"
  by (simp_all add: set_ud_def)

lemma put_fields [simp]:
  "leanok (put k u) = leanok u"
  "mathlibok (put k u) = mathlibok u"
  "notready (put k u) = notready u"
  "issue (put k u) = issue u"
  "leandecls (put k u) = leandecls u"
  "uses (put k u) = uses u"
  "proved_by (put k u) = proved_by u"
  "lean_urls (put k u) = lean_urls u"
  "can_state (put k u) = can_state u"
  "can_prove (put k u) = can_prove u"
  "proved (put k u) = proved u"
  "fully_proved (put k u) = fully_proved u"
  "extra (put k u) = extra u"
  by (simp_all add: put_def)

lemma node_status_other: "m \<noteq> n \<Longrightarrow> node_status d n h m = h m"
  by (simp add: node_status_def Let_def set_ud_other split: option.splits)

lemma node_status_attrs:
  "kind (node_status d n h m) = kind (h m)"
  "node_id (node_status d n h m) = node_id (h m)"
  "caption (node_status d n h m) = caption (h m)"
  "is_truthy (node_status d n h m) = is_truthy (h m)"
  by (simp_all add: node_status_def Let_def set_ud_attrs split: option.splits)

lemma node_status_authored:
  "leanok (ud (node_status d n h) m) = leanok (ud h m)"
  "mathlibok (ud (node_status d n h) m) = mathlibok (ud h m)"
  "notready (ud (node_status d n h) m) = notready (ud h m)"
  "issue (ud (node_status d n h) m) = issue (ud h m)"
  "leandecls (ud (node_status d n h) m) = leandecls (ud h m)"
  "proved_by (ud (node_status d n h) m) = proved_by (ud h m)"
  "extra (ud (node_status d n h) m) = extra (ud h m)"
  "fully_proved (ud (node_status d n h) m) = fully_proved (ud h m)"
  by (simp_all add: node_status_def Let_def ud_set_ud split: option.splits)

lemma node_status_uses:
  "uses (ud (node_status d n h) m) =
     (if m = n then
        (case proved_by (ud h n) of
           None \<Rightarrow> uses (ud h n)
         | Some p \<Rightarrow>
            if is_truthy (h p) then
              (case uses (ud h n) of None \<Rightarrow> None | Some us \<Rightarrow> Some (us @ get_uses h p))
            else uses (ud h n))
      else uses (ud h m))"
  by (simp add: node_status_def Let_def ud_set_ud get_uses_def set_ud_attrs split: option.splits)

lemma node_status_can_state:
  "can_state (ud (node_status d n h) n) =
     Some ((\<forall>u \<in> set (get_uses h n). truthy (leanok (ud h u))) \<and> \<not> truthy (notready (ud h n)))"
  by (auto simp add: node_status_def Let_def ud_set_ud get_uses_def list_all_iff split: option.splits)

lemma node_status_can_prove:
  "can_prove (ud (node_status d n h) n) =
     Some (case proved_by (ud h n) of None \<Rightarrow> False
           | Some p \<Rightarrow> is_truthy (h p)
               \<and> (\<forall>u \<in> set (get_uses h n) \<union> set (get_uses h p). truthy (leanok (ud h u))))"
  by (auto simp add: node_status_def Let_def ud_set_ud get_uses_def list_all_iff set_ud_attrs
           split: option.splits)

lemma node_status_proved:
  "proved (ud (node_status d n h) n) = Some (visit_proved h n)"
  by (auto simp add: node_status_def Let_def ud_set_ud get_uses_def truthy_def set_ud_attrs
           visit_proved_def split: option.splits)

lemma status_loop_other: "m \<notin> set ns \<Longrightarrow> status_loop d ns h m = h m"
  by (induction ns arbitrary: h) (simp_all add: node_status_other)

lemma status_loop_attrs:
  "kind (status_loop d ns h m) = kind (h m)"
  "node_id (status_loop d ns h m) = node_id (h m)"
  "caption (status_loop d ns h m) = caption (h m)"
  "is_truthy (status_loop d ns h m) = is_truthy (h m)"
  by (induction ns arbitrary: h) (simp_all add: node_status_attrs)

lemma status_loop_authored:
  "leanok (ud (status_loop d ns h) m) = leanok (ud h m)"
  "mathlibok (ud (status_loop d ns h) m) = mathlibok (ud h m)"
  "notready (ud (status_loop d ns h) m) = notready (ud h m)"
  "issue (ud (status_loop d ns h) m) = issue (ud h m)"
  "leandecls (ud (status_loop d ns h) m) = leandecls (ud h m)"
  "proved_by (ud (status_loop d ns h) m) = proved_by (ud h m)"
  "extra (ud (status_loop d ns h) m) = extra (ud h m)"
  "fully_proved (ud (status_loop d ns h) m) = fully_proved (ud h m)"
  by (induction ns arbitrary: h) (simp_all add: node_status_authored)

lemma status_loop_uses:
  "m \<notin> set ns \<or> proved_by (ud h m) = None \<Longrightarrow>
     uses (ud (status_loop d ns h) m) = uses (ud h m)"
proof (induction ns arbitrary: h)
  case Nil
  show ?case by simp
next
  case (Cons x ns)
  have "uses (ud (node_status d x h) m) = uses (ud h m)"
    using Cons.prems by (auto simp: node_status_uses)
  moreover have "m \<notin> set ns \<or> proved_by (ud (node_status d x h) m) = None"
    using Cons.prems by (auto simp: node_status_authored)
  ultimately show ?case
    using Cons.IH [of "node_status d x h"] by simp
qed

lemma spec_values_cong:
  assumes "\<And>m. leanok (ud h' m) = leanok (ud h m)"
    and "notready (ud h' n) = notready (ud h n)"
    and "proved_by (ud h' n) = proved_by (ud h n)"
    and "uses (ud h' n) = uses (ud h n)"
    and "\<And>p. proved_by (ud h n) = Some p \<Longrightarrow> uses (ud h' p) = uses (ud h p)"
  shows "spec_can_state h' n = spec_can_state h n"
    and "spec_can_prove h' n = spec_can_prove h n"
    and "spec_proved h' n = spec_proved h n"
  using assms
  by (auto simp: spec_can_state_def spec_can_prove_def spec_proved_def get_uses_def
           split: option.splits)

lemma node_status_spec_values:
  assumes "proofs_unproved h ns" "n \<in> set ns" "n \<noteq> x"
  shows "spec_can_state (node_status d x h) n = spec_can_state h n"
    and "spec_can_prove (node_status d x h) n = spec_can_prove h n"
    and "spec_proved (node_status d x h) n = spec_proved h n"
proof -
  have u: "\<And>p. proved_by (ud h n) = Some p \<Longrightarrow> uses (ud (node_status d x h) p) = uses (ud h p)"
    using assms(1,2) by (auto simp: proofs_unproved_def node_status_uses split: option.splits)
  have un: "uses (ud (node_status d x h) n) = uses (ud h n)"
    using assms(3) by (simp add: node_status_uses)
  show "spec_can_state (node_status d x h) n = spec_can_state h n"
    and "spec_can_prove (node_status d x h) n = spec_can_prove h n"
    and "spec_proved (node_status d x h) n = spec_proved h n"
    by (rule spec_values_cong; simp add: node_status_authored un u)+
qed

lemma proofs_unproved_node_status:
  "proofs_unproved (node_status d x h) ns = proofs_unproved h ns"
  by (simp add: proofs_unproved_def node_status_authored cong: option.case_cong)

lemma proofs_unproved_tl: "proofs_unproved h (x # ns) \<Longrightarrow> proofs_unproved h ns"
  by (simp add: proofs_unproved_def)

lemma proofs_truthy_node_status:
  "proofs_truthy (node_status d x h) ns = proofs_truthy h ns"
  by (simp add: proofs_truthy_def node_status_authored node_status_attrs cong: option.case_cong)

lemma proofs_truthy_tl: "proofs_truthy h (x # ns) \<Longrightarrow> proofs_truthy h ns"
  by (simp add: proofs_truthy_def)

lemma node_status_values:
  assumes "proofs_truthy h [n]"
  shows "can_state (ud (node_status d n h) n) = Some (spec_can_state h n)"
    and "can_prove (ud (node_status d n h) n) = Some (spec_can_prove h n)"
    and "proved (ud (node_status d n h) n) = Some (spec_proved h n)"
  using assms
  by (auto simp: node_status_can_state node_status_can_prove node_status_proved
        spec_can_state_def spec_can_prove_def spec_proved_def visit_proved_def proofs_truthy_def
        split: option.splits)

lemma status_loop_values:
  assumes "distinct ns" "proofs_unproved h ns" "proofs_truthy h ns" "n \<in> set ns"
  shows "can_state (ud (status_loop d ns h) n) = Some (spec_can_state h n)
       \<and> can_prove (ud (status_loop d ns h) n) = Some (spec_can_prove h n)
       \<and> proved (ud (status_loop d ns h) n) = Some (spec_proved h n)"
  using assms
proof (induction ns arbitrary: h)
  case Nil
  then show ?case by simp
next
  case (Cons x ns)
  show ?case
  proof (cases "n = x")
    case True
    then have "n \<notin> set ns" using Cons.prems(1) by simp
    then have e: "ud (status_loop d ns (node_status d x h)) n = ud (node_status d x h) n"
      by (simp add: ud_def status_loop_other)
    have "proofs_truthy h [n]"
      using Cons.prems(3) True by (simp add: proofs_truthy_def)
    from node_status_values [OF this, of d] e True show ?thesis by simp
  next
    case False
    then have mem: "n \<in> set ns" using Cons.prems(4) by simp
    have pu: "proofs_unproved (node_status d x h) ns"
      using Cons.prems(2) by (simp add: proofs_unproved_node_status proofs_unproved_tl)
    have pt: "proofs_truthy (node_status d x h) ns"
      using Cons.prems(3) by (simp add: proofs_truthy_node_status proofs_truthy_tl)
    have "distinct ns" using Cons.prems(1) by simp
    from Cons.IH [OF this pu pt mem]
    show ?thesis
      using node_status_spec_values [OF Cons.prems(2) Cons.prems(4) False, of d]
      by simp
  qed
qed

lemma node_fully_proved_other: "m \<noteq> n \<Longrightarrow> node_fully_proved anc g n h m = h m"
  by (simp add: node_fully_proved_def set_ud_other)

lemma node_fully_proved_attrs:
  "kind (node_fully_proved anc g n h m) = kind (h m)"
  "node_id (node_fully_proved anc g n h m) = node_id (h m)"
  "caption (node_fully_proved anc g n h m) = caption (h m)"
  "is_truthy (node_fully_proved anc g n h m) = is_truthy (h m)"
  by (simp_all add: node_fully_proved_def set_ud_attrs)

lemma node_fully_proved_fields:
  "leanok (ud (node_fully_proved anc g n h) m) = leanok (ud h m)"
  "mathlibok (ud (node_fully_proved anc g n h) m) = mathlibok (ud h m)"
  "notready (ud (node_fully_proved anc g n h) m) = notready (ud h m)"
  "issue (ud (node_fully_proved anc g n h) m) = issue (ud h m)"
  "leandecls (ud (node_fully_proved anc g n h) m) = leandecls (ud h m)"
  "uses (ud (node_fully_proved anc g n h) m) = uses (ud h m)"
  "proved_by (ud (node_fully_proved anc g n h) m) = proved_by (ud h m)"
  "lean_urls (ud (node_fully_proved anc g n h) m) = lean_urls (ud h m)"
  "can_state (ud (node_fully_proved anc g n h) m) = can_state (ud h m)"
  "can_prove (ud (node_fully_proved anc g n h) m) = can_prove (ud h m)"
  "proved (ud (node_fully_proved anc g n h) m) = proved (ud h m)"
  "extra (ud (node_fully_proved anc g n h) m) = extra (ud h m)"
  by (simp_all add: node_fully_proved_def ud_set_ud)

lemma node_fully_proved_value:
  "fully_proved (ud (node_fully_proved anc g n h) n) = Some (spec_fully_proved anc g h n)"
  by (simp add: node_fully_proved_def ud_set_ud spec_fully_proved_def set_union_def list_all_iff)

lemma spec_fully_proved_cong:
  "(\<And>m. proved (ud h' m) = proved (ud h m)) \<Longrightarrow> (\<And>m. kind (h' m) = kind (h m)) \<Longrightarrow>
     spec_fully_proved anc g h' n = spec_fully_proved anc g h n"
  by (simp add: spec_fully_proved_def)

lemma fully_proved_loop_other: "m \<notin> set ns \<Longrightarrow> fully_proved_loop anc g ns h m = h m"
  by (induction ns arbitrary: h) (simp_all add: node_fully_proved_other)

lemma fully_proved_loop_attrs:
  "kind (fully_proved_loop anc g ns h m) = kind (h m)"
  "node_id (fully_proved_loop anc g ns h m) = node_id (h m)"
  "caption (fully_proved_loop anc g ns h m) = caption (h m)"
  "is_truthy (fully_proved_loop anc g ns h m) = is_truthy (h m)"
  by (induction ns arbitrary: h) (simp_all add: node_fully_proved_attrs)

lemma fully_proved_loop_fields:
  "leanok (ud (fully_proved_loop anc g ns h) m) = leanok (ud h m)"
  "mathlibok (ud (fully_proved_loop anc g ns h) m) = mathlibok (ud h m)"
  "notready (ud (fully_proved_loop anc g ns h) m) = notready (ud h m)"
  "issue (ud (fully_proved_loop anc g ns h) m) = issue (ud h m)"
  "leandecls (ud (fully_proved_loop anc g ns h) m) = leandecls (ud h m)"
  "uses (ud (fully_proved_loop anc g ns h) m) = uses (ud h m)"
  "proved_by (ud (fully_proved_loop anc g ns h) m) = proved_by (ud h m)"
  "lean_urls (ud (fully_proved_loop anc g ns h) m) = lean_urls (ud h m)"
  "can_state (ud (fully_proved_loop anc g ns h) m) = can_state (ud h m)"
  "can_prove (ud (fully_proved_loop anc g ns h) m) = can_prove (ud h m)"
  "proved (ud (fully_proved_loop anc g ns h) m) = proved (ud h m)"
  "extra (ud (fully_proved_loop anc g ns h) m) = extra (ud h m)"
  by (induction ns arbitrary: h) (simp_all add: node_fully_proved_fields)

lemma fully_proved_loop_value:
  "n \<in> set ns \<Longrightarrow>
     fully_proved (ud (fully_proved_loop anc g ns h) n) = Some (spec_fully_proved anc g h n)"
proof (induction ns arbitrary: h)
  case Nil
  then show ?case by simp
next
  case (Cons x ns)
  have eq: "spec_fully_proved anc g (node_fully_proved anc g x h) n = spec_fully_proved anc g h n"
    by (rule spec_fully_proved_cong) (simp_all add: node_fully_proved_fields node_fully_proved_attrs)
  show ?case
  proof (cases "n \<in> set ns")
    case True
    from Cons.IH [OF this, of "node_fully_proved anc g x h"] eq show ?thesis by simp
  next
    case False
    then have nx: "n = x" using Cons.prems by simp
    have "ud (fully_proved_loop anc g ns (node_fully_proved anc g x h)) n
            = ud (node_fully_proved anc g x h) n"
      using False by (simp add: ud_def fully_proved_loop_other)
    then show ?thesis using nx by (simp add: node_fully_proved_value)
  qed
qed

lemma node_status_computed:
  "can_state (ud h m) \<noteq> None \<and> can_prove (ud h m) \<noteq> None \<and> proved (ud h m) \<noteq> None \<Longrightarrow>
   can_state (ud (node_status d n h) m) \<noteq> None \<and> can_prove (ud (node_status d n h) m) \<noteq> None
     \<and> proved (ud (node_status d n h) m) \<noteq> None"
proof (cases "m = n")
  case True
  then show ?thesis
    by (simp add: node_status_can_state node_status_can_prove node_status_proved)
next
  case False
  assume "can_state (ud h m) \<noteq> None \<and> can_prove (ud h m) \<noteq> None \<and> proved (ud h m) \<noteq> None"
  then show ?thesis using False by (simp add: ud_def node_status_other)
qed

lemma status_loop_keeps_computed:
  "can_state (ud h m) \<noteq> None \<and> can_prove (ud h m) \<noteq> None \<and> proved (ud h m) \<noteq> None \<Longrightarrow>
   can_state (ud (status_loop d ns h) m) \<noteq> None \<and> can_prove (ud (status_loop d ns h) m) \<noteq> None
     \<and> proved (ud (status_loop d ns h) m) \<noteq> None"
proof (induction ns arbitrary: h)
  case Nil
  then show ?case by simp
next
  case (Cons x ns)
  from Cons.IH [OF node_status_computed [OF Cons.prems, of d x]] show ?case by simp
qed

lemma status_loop_computed:
  "m \<in> set ns \<Longrightarrow>
   can_state (ud (status_loop d ns h) m) \<noteq> None \<and> can_prove (ud (status_loop d ns h) m) \<noteq> None
     \<and> proved (ud (status_loop d ns h) m) \<noteq> None"
proof (induction ns arbitrary: h)
  case Nil
  then show ?case by simp
next
  case (Cons x ns)
  show ?case
  proof (cases "m = x")
    case True
    have "can_state (ud (node_status d x h) m) \<noteq> None \<and> can_prove (ud (node_status d x h) m) \<noteq> None
            \<and> proved (ud (node_status d x h) m) \<noteq> None"
      using True by (simp add: node_status_can_state node_status_can_prove node_status_proved)
    from status_loop_keeps_computed [OF this] show ?thesis by simp
  next
    case False
    then have "m \<in> set ns" using Cons.prems by simp
    from Cons.IH [OF this] show ?thesis by simp
  qed
qed

lemma visit_proved_node_status: "visit_proved (node_status d x h) n = visit_proved h n"
  by (simp add: visit_proved_def node_status_authored node_status_attrs cong: option.case_cong)

lemma status_loop_proved:
  "n \<in> set ns \<Longrightarrow> proved (ud (status_loop d ns h) n) = Some (visit_proved h n)"
proof (induction ns arbitrary: h)
  case Nil
  then show ?case by simp
next
  case (Cons x ns)
  show ?case
  proof (cases "n \<in> set ns")
    case True
    from Cons.IH [OF this, of "node_status d x h"] show ?thesis
      by (simp add: visit_proved_node_status)
  next
    case False
    then have nx: "n = x" using Cons.prems by simp
    have "ud (status_loop d ns (node_status d x h)) n = ud (node_status d x h) n"
      using False by (simp add: ud_def status_loop_other)
    then show ?thesis using nx by (simp add: node_status_proved)
  qed
qed

lemma graph_pass_other: "m \<notin> set (nodes g) \<Longrightarrow> graph_pass anc d g h m = h m"
  by (simp add: graph_pass_def fully_proved_loop_other status_loop_other)

lemma graph_pass_attrs:
  "kind (graph_pass anc d g h m) = kind (h m)"
  "node_id (graph_pass anc d g h m) = node_id (h m)"
  "caption (graph_pass anc d g h m) = caption (h m)"
  "is_truthy (graph_pass anc d g h m) = is_truthy (h m)"
  by (simp_all add: graph_pass_def fully_proved_loop_attrs status_loop_attrs)

lemma graph_pass_authored:
  "leanok (ud (graph_pass anc d g h) m) = leanok (ud h m)"
  "mathlibok (ud (graph_pass anc d g h) m) = mathlibok (ud h m)"
  "notready (ud (graph_pass anc d g h) m) = notready (ud h m)"
  "issue (ud (graph_pass anc d g h) m) = issue (ud h m)"
  "leandecls (ud (graph_pass anc d g h) m) = leandecls (ud h m)"
  "proved_by (ud (graph_pass anc d g h) m) = proved_by (ud h m)"
  "extra (ud (graph_pass anc d g h) m) = extra (ud h m)"
  by (simp_all add: graph_pass_def fully_proved_loop_fields status_loop_authored)

lemma graph_pass_uses:
  "m \<notin> set (nodes g) \<or> proved_by (ud h m) = None \<Longrightarrow>
     uses (ud (graph_pass anc d g h) m) = uses (ud h m)"
  by (simp add: graph_pass_def fully_proved_loop_fields status_loop_uses)

lemma graphs_loop_other:
  "m \<notin> set (concat (map nodes gs)) \<Longrightarrow> graphs_loop anc d gs h m = h m"
  by (induction gs arbitrary: h) (simp_all add: graph_pass_other)

lemma graphs_loop_attrs:
  "kind (graphs_loop anc d gs h m) = kind (h m)"
  "node_id (graphs_loop anc d gs h m) = node_id (h m)"
  "caption (graphs_loop anc d gs h m) = caption (h m)"
  "is_truthy (graphs_loop anc d gs h m) = is_truthy (h m)"
  by (induction gs arbitrary: h) (simp_all add: graph_pass_attrs)

lemma graphs_loop_authored:
  "leanok (ud (graphs_loop anc d gs h) m) = leanok (ud h m)"
  "mathlibok (ud (graphs_loop anc d gs h) m) = mathlibok (ud h m)"
  "notready (ud (graphs_loop anc d gs h) m) = notready (ud h m)"
  "issue (ud (graphs_loop anc d gs h) m) = issue (ud h m)"
  "leandecls (ud (graphs_loop anc d gs h) m) = leandecls (ud h m)"
  "proved_by (ud (graphs_loop anc d gs h) m) = proved_by (ud h m)"
  "extra (ud (graphs_loop anc d gs h) m) = extra (ud h m)"
  by (induction gs arbitrary: h) (simp_all add: graph_pass_authored)

lemma graph_pass_values:
  assumes "distinct (nodes g)" "proofs_unproved h (nodes g)" "proofs_truthy h (nodes g)"
    and "n \<in> set (nodes g)"
  shows "can_state (ud (graph_pass anc d g h) n) = Some (spec_can_state h n)
       \<and> can_prove (ud (graph_pass anc d g h) n) = Some (spec_can_prove h n)
       \<and> proved (ud (graph_pass anc d g h) n) = Some (spec_proved h n)"
  using status_loop_values [OF assms, of d]
  by (simp add: graph_pass_def fully_proved_loop_fields)

lemma graph_pass_spec_values:
  assumes "proofs_unproved h ns" "n \<in> set ns" "n \<notin> set (nodes g)"
  shows "spec_can_state (graph_pass anc d g h) n = spec_can_state h n"
    and "spec_can_prove (graph_pass anc d g h) n = spec_can_prove h n"
    and "spec_proved (graph_pass anc d g h) n = spec_proved h n"
proof -
  have u: "\<And>p. proved_by (ud h n) = Some p \<Longrightarrow> uses (ud (graph_pass anc d g h) p) = uses (ud h p)"
    using assms(1,2) by (auto simp: proofs_unproved_def graph_pass_uses split: option.splits)
  have un: "uses (ud (graph_pass anc d g h) n) = uses (ud h n)"
    using assms(3) by (simp add: graph_pass_uses)
  show "spec_can_state (graph_pass anc d g h) n = spec_can_state h n"
    and "spec_can_prove (graph_pass anc d g h) n = spec_can_prove h n"
    and "spec_proved (graph_pass anc d g h) n = spec_proved h n"
    by (rule spec_values_cong; simp add: graph_pass_authored un u)+
qed

lemma proofs_unproved_graph_pass:
  "proofs_unproved (graph_pass anc d g h) ns = proofs_unproved h ns"
  by (simp add: proofs_unproved_def graph_pass_authored cong: option.case_cong)

lemma proofs_unproved_append:
  "proofs_unproved h (xs @ ys) = (proofs_unproved h xs \<and> proofs_unproved h ys)"
  by (auto simp: proofs_unproved_def)

lemma proofs_truthy_graph_pass:
  "proofs_truthy (graph_pass anc d g h) ns = proofs_truthy h ns"
  by (simp add: proofs_truthy_def graph_pass_authored graph_pass_attrs cong: option.case_cong)

lemma proofs_truthy_append:
  "proofs_truthy h (xs @ ys) = (proofs_truthy h xs \<and> proofs_truthy h ys)"
  by (auto simp: proofs_truthy_def)

section \<open>The status flags\<close>

lemmas example_defs = example_heap_def example_graph_def example_anc_def empty_userdata_def

lemmas pass_defs = graph_pass_def node_status_def node_fully_proved_def set_ud_def ud_def
  get_uses_def truthy_def set_union_def Let_def

lemma make_lean_data_loops:
  "dep_graph d = Some dg \<Longrightarrow> graphs dg = Some gs \<Longrightarrow>
     heap (fst (make_lean_data anc d))
       = graphs_loop anc (case project_dochome d of
                            None \<Rightarrow> ''https://leanprover-community.github.io/mathlib4_docs''
                          | Some u \<Rightarrow> u) (map snd gs) (heap d)"
  by (simp add: make_lean_data_def Let_def split: option.splits)

lemma graphs_loop_values:
  assumes "distinct (concat (map nodes gs))"
    and "proofs_unproved h (concat (map nodes gs))"
    and "proofs_truthy h (concat (map nodes gs))"
    and "n \<in> set (concat (map nodes gs))"
  shows "can_state (ud (graphs_loop anc d gs h) n) = Some (spec_can_state h n)
       \<and> can_prove (ud (graphs_loop anc d gs h) n) = Some (spec_can_prove h n)
       \<and> proved (ud (graphs_loop anc d gs h) n) = Some (spec_proved h n)"
  using assms
proof (induction gs arbitrary: h)
  case Nil
  then show ?case by simp
next
  case (Cons g gs)
  have dg: "distinct (nodes g)" and dgs: "distinct (concat (map nodes gs))"
    and disj: "set (nodes g) \<inter> set (concat (map nodes gs)) = {}"
    using Cons.prems(1) by simp_all
  have pg: "proofs_unproved h (nodes g)" and pgs: "proofs_unproved h (concat (map nodes gs))"
    using Cons.prems(2) by (simp_all add: proofs_unproved_append)
  have tg: "proofs_truthy h (nodes g)" and tgs: "proofs_truthy h (concat (map nodes gs))"
    using Cons.prems(3) by (simp_all add: proofs_truthy_append)
  show ?case
  proof (cases "n \<in> set (nodes g)")
    case True
    then have "n \<notin> set (concat (map nodes gs))" using disj by blast
    then have "ud (graphs_loop anc d gs (graph_pass anc d g h)) n = ud (graph_pass anc d g h) n"
      by (simp add: ud_def graphs_loop_other)
    then show ?thesis using graph_pass_values [OF dg pg tg True, of anc d] by simp
  next
    case False
    then have mem: "n \<in> set (concat (map nodes gs))" using Cons.prems(4) by simp
    have pu: "proofs_unproved (graph_pass anc d g h) (concat (map nodes gs))"
      using pgs by (simp add: proofs_unproved_graph_pass)
    have pt: "proofs_truthy (graph_pass anc d g h) (concat (map nodes gs))"
      using tgs by (simp add: proofs_truthy_graph_pass)
    from Cons.IH [OF dgs pu pt mem] show ?thesis
      using graph_pass_spec_values [OF pgs mem False, of anc d] by simp
  qed
qed

text \<open>
  Claim C1. For every node \<open>n\<close> of every graph the status propagator is claimed to compute:
  \<open>can_state(n)\<close> holds exactly when every prerequisite in \<open>U(n)\<close> has \<open>leanok\<close> and
  \<open>notready(n)\<close> is not set; with a proof node \<open>P(n)\<close>, \<open>can_prove(n)\<close> holds exactly when
  every node of \<open>U(n)\<close> and of \<open>U(P(n))\<close> has \<open>leanok\<close>, and \<open>proved(n)\<close> is \<open>leanok(P(n))\<close>;
  without a proof node both are false.
  In the document with the empty proof, the theorem \<open>B\<close> has the proof node 2, its only
  prerequisite \<open>A\<close> has \<open>leanok\<close> and the proof has no prerequisite, so \<open>can_prove(B)\<close>
  should hold. The pass stores \<open>False\<close>: \<open>if proof:\<close> tests the truth value of the proof
  node, and a node without children is falsy.
\<close>

theorem empty_proof_counts_as_no_proof:
  "1 \<in> set (nodes example_graph)
   \<and> proved_by (ud (heap empty_proof_document) 1) = Some 2
   \<and> \<not> is_truthy (heap empty_proof_document 2)
   \<and> get_uses (heap empty_proof_document) 1 = [0]
   \<and> get_uses (heap empty_proof_document) 2 = []
   \<and> leanok (ud (heap empty_proof_document) 0) = Some True
   \<and> can_state (ud (heap (fst (make_lean_data example_anc empty_proof_document))) 1) = Some True
   \<and> can_prove (ud (heap (fst (make_lean_data example_anc empty_proof_document))) 1) = Some False"
  by (simp add: make_lean_data_def empty_proof_document_def empty_proof_heap_def
        example_document_def example_defs pass_defs)

text \<open>
  A second effect on the same flags comes from the extension of the \<open>uses\<close> list in place:
  a node that belongs to two graphs is visited twice, and the second visit reads the
  extended list. In \<open>shared_document\<close> the only prerequisite \<open>A\<close> of \<open>B\<close> has \<open>leanok\<close> and
  \<open>B\<close> is not marked \<open>notready\<close>, and \<open>can_state(B)\<close> ends as \<open>False\<close>.
\<close>

lemma second_visit_reads_extended_uses:
  "get_uses (heap shared_document) 1 = [0]
   \<and> leanok (ud (heap shared_document) 0) = Some True
   \<and> notready (ud (heap shared_document) 1) = None
   \<and> can_state (ud (heap (fst (make_lean_data example_anc shared_document))) 1) = Some False"
  by (simp add: make_lean_data_def shared_document_def shared_heap_def
        example_document_def example_defs pass_defs)

text \<open>
  Claim C2. For every node \<open>n\<close> of a graph, the pass over that graph stores
  \<open>fully_proved(n) = (\<forall>m \<in> ancestors(n) \<union> {n}. proved(m) \<or> kind(m) = definition)\<close>, read in
  the heap left by the first loop: by then every node of the graph has its \<open>can_state\<close>,
  \<open>can_prove\<close> and \<open>proved\<close>, and the second loop changes none of them, so the same formula
  holds of the final heap.
\<close>

theorem fully_proved_after_status_loop:
  assumes "n \<in> set (nodes g)"
  shows "fully_proved (ud (graph_pass anc d g h) n)
           = Some (spec_fully_proved anc g (status_loop d (nodes g) h) n)
       \<and> spec_fully_proved anc g (status_loop d (nodes g) h) n
           = spec_fully_proved anc g (graph_pass anc d g h) n
       \<and> (\<forall>m \<in> set (nodes g).
             can_state (ud (status_loop d (nodes g) h) m) \<noteq> None
           \<and> can_prove (ud (status_loop d (nodes g) h) m) \<noteq> None
           \<and> proved (ud (status_loop d (nodes g) h) m) = Some (visit_proved h m))
       \<and> (\<forall>m. can_state (ud (graph_pass anc d g h) m) = can_state (ud (status_loop d (nodes g) h) m)
           \<and> can_prove (ud (graph_pass anc d g h) m) = can_prove (ud (status_loop d (nodes g) h) m)
           \<and> proved (ud (graph_pass anc d g h) m) = proved (ud (status_loop d (nodes g) h) m))"
proof -
  let ?h1 = "status_loop d (nodes g) h"
  have v: "fully_proved (ud (graph_pass anc d g h) n) = Some (spec_fully_proved anc g ?h1 n)"
    using assms by (simp add: graph_pass_def fully_proved_loop_value)
  have e: "spec_fully_proved anc g ?h1 n = spec_fully_proved anc g (graph_pass anc d g h) n"
    by (rule spec_fully_proved_cong [symmetric])
       (simp_all add: graph_pass_def fully_proved_loop_fields fully_proved_loop_attrs)
  have c: "\<forall>m \<in> set (nodes g).
             can_state (ud ?h1 m) \<noteq> None \<and> can_prove (ud ?h1 m) \<noteq> None
           \<and> proved (ud ?h1 m) = Some (visit_proved h m)"
    using status_loop_computed [of _ "nodes g" d h] status_loop_proved [of _ "nodes g" d h]
    by blast
  have k: "\<forall>m. can_state (ud (graph_pass anc d g h) m) = can_state (ud ?h1 m)
           \<and> can_prove (ud (graph_pass anc d g h) m) = can_prove (ud ?h1 m)
           \<and> proved (ud (graph_pass anc d g h) m) = proved (ud ?h1 m)"
    by (simp add: graph_pass_def fully_proved_loop_fields)
  from v e c k show ?thesis by blast
qed

theorem fully_proved_after_status_loop_witness:
  "1 \<in> set (nodes example_graph)
   \<and> fully_proved (ud (graph_pass example_anc ''u'' example_graph example_heap) 1) = Some False
   \<and> \<not> spec_fully_proved example_anc example_graph
          (graph_pass example_anc ''u'' example_graph example_heap) 1
   \<and> proved (ud (status_loop ''u'' (nodes example_graph) example_heap) 3) = Some False
   \<and> proved (ud (graph_pass example_anc ''u'' example_graph example_heap) 3) = Some False"
proof -
  have a: "1 \<in> set (nodes example_graph)"
    by (simp add: example_graph_def)
  have b: "3 \<in> set (nodes example_graph)"
    by (simp add: example_graph_def)
  have p: "\<not> visit_proved example_heap 3"
    by (simp add: visit_proved_def example_defs ud_def)
  note t = fully_proved_after_status_loop [OF a, of example_anc "''u''" example_heap]
  have p3: "proved (ud (status_loop ''u'' (nodes example_graph) example_heap) 3) = Some False"
    using t b p by auto
  have p3': "proved (ud (graph_pass example_anc ''u'' example_graph example_heap) 3) = Some False"
    using t p3 by simp
  have "\<not> spec_fully_proved example_anc example_graph
          (graph_pass example_anc ''u'' example_graph example_heap) 1"
    using p3' by (simp add: spec_fully_proved_def example_anc_def truthy_def graph_pass_attrs)
       (simp add: example_heap_def)
  with t a p3 p3' show ?thesis by simp
qed

section \<open>What the pass writes\<close>

text \<open>
  Claim C3. The pass is claimed to write only the derived fields and to leave the \<open>uses\<close>
  list of a node as it was authored. In the small document the theorem \<open>B\<close> is authored with
  \<open>uses = [A]\<close>; after the pass its list is \<open>[A, C]\<close>: the prerequisites of its proof were
  appended to the node's own list.
\<close>

theorem uses_extended_in_place:
  "uses (ud (heap example_document) 1) = Some [0]
   \<and> uses (ud (heap (fst (make_lean_data example_anc example_document))) 1) = Some [0, 3]"
  by (simp add: make_lean_data_def example_document_def example_defs pass_defs)

section \<open>Fully proved nodes\<close>

text \<open>
  Claim C4, as stated: \<open>fully_proved(n)\<close> implies \<open>proved(n)\<close>. The definition \<open>A\<close> of the
  small document has no proof, so \<open>proved(A)\<close> is false, and it is \<open>fully_proved\<close>.
\<close>

theorem fully_proved_without_proved:
  "0 \<in> set (nodes example_graph)
   \<and> truthy (fully_proved (ud (heap (fst (make_lean_data example_anc example_document))) 0))
   \<and> \<not> truthy (proved (ud (heap (fst (make_lean_data example_anc example_document))) 0))"
  by (simp add: make_lean_data_def example_document_def example_defs pass_defs)

lemma graph_pass_fully_proved_sound:
  assumes "n \<in> set (nodes g)" "truthy (fully_proved (ud (graph_pass anc d g h) n))"
  shows "truthy (proved (ud (graph_pass anc d g h) n)) \<or> kind (graph_pass anc d g h n) = ''definition''"
proof -
  let ?h1 = "status_loop d (nodes g) h"
  have "fully_proved (ud (graph_pass anc d g h) n) = Some (spec_fully_proved anc g ?h1 n)"
    using assms(1) by (simp add: graph_pass_def fully_proved_loop_value)
  with assms(2) have "spec_fully_proved anc g ?h1 n" by (simp add: truthy_def)
  then have "truthy (proved (ud ?h1 n)) \<or> kind (?h1 n) = ''definition''"
    by (simp add: spec_fully_proved_def)
  then show ?thesis
    by (simp add: graph_pass_def fully_proved_loop_fields fully_proved_loop_attrs)
qed

text \<open>
  Claim C4, amended. For every node \<open>n\<close> of a graph, after the pass, \<open>fully_proved(n)\<close> implies
  that \<open>proved(n)\<close> holds or that \<open>n\<close> is of kind \<open>definition\<close>.
\<close>

theorem fully_proved_implies_proved_or_definition:
  assumes "n \<in> set (concat (map nodes gs))"
    and "truthy (fully_proved (ud (graphs_loop anc d gs h) n))"
  shows "truthy (proved (ud (graphs_loop anc d gs h) n))
       \<or> kind (graphs_loop anc d gs h n) = ''definition''"
  using assms
proof (induction gs arbitrary: h)
  case Nil
  then show ?case by simp
next
  case (Cons g gs)
  show ?case
  proof (cases "n \<in> set (concat (map nodes gs))")
    case True
    from Cons.IH [OF True, of "graph_pass anc d g h"] Cons.prems(2) show ?thesis by simp
  next
    case False
    then have mem: "n \<in> set (nodes g)" using Cons.prems(1) by simp
    have eq: "graphs_loop anc d gs (graph_pass anc d g h) n = graph_pass anc d g h n"
      using False by (rule graphs_loop_other)
    then have fp: "truthy (fully_proved (ud (graph_pass anc d g h) n))"
      using Cons.prems(2) by (simp add: ud_def)
    from graph_pass_fully_proved_sound [OF mem fp] eq show ?thesis by (simp add: ud_def)
  qed
qed

theorem fully_proved_implies_proved_or_definition_witness:
  "0 \<in> set (concat (map nodes [example_graph]))
   \<and> truthy (fully_proved (ud (graphs_loop example_anc ''u'' [example_graph] example_heap) 0))
   \<and> (truthy (proved (ud (graphs_loop example_anc ''u'' [example_graph] example_heap) 0))
      \<or> kind (graphs_loop example_anc ''u'' [example_graph] example_heap 0) = ''definition'')"
proof -
  have a: "0 \<in> set (concat (map nodes [example_graph]))"
    by (simp add: example_graph_def)
  have b: "truthy (fully_proved (ud (graphs_loop example_anc ''u'' [example_graph] example_heap) 0))"
    by (simp add: example_defs pass_defs)
  from fully_proved_implies_proved_or_definition [OF a b] a b show ?thesis by blast
qed

section \<open>Serialized graphs\<close>

text \<open>
  Claim C5. For every graph, the fields \<open>node_count\<close>, \<open>edge_count\<close> and \<open>proof_edge_count\<close>
  of the serialized structure are the cardinalities of the graph's sets of nodes, edges
  and proof edges, and the lengths of the serialized lists \<open>nodes\<close>, \<open>edges\<close> and
  \<open>proof_edges\<close>. The hypothesis says that the three lists stand for sets.
\<close>

theorem serialize_graph_counts:
  assumes "wf_graph g"
  shows "field (serialize_graph h g) ''node_count'' = Some (Verbatim (PInt (int (card (set (nodes g))))))
       \<and> field (serialize_graph h g) ''edge_count'' = Some (Verbatim (PInt (int (card (set (edges g))))))
       \<and> field (serialize_graph h g) ''proof_edge_count''
           = Some (Verbatim (PInt (int (card (set (proof_edges g))))))
       \<and> (\<exists>ns. field (serialize_graph h g) ''nodes'' = Some (Arr ns)
                \<and> length ns = card (set (nodes g)))
       \<and> (\<exists>es. field (serialize_graph h g) ''edges'' = Some (Arr es)
                \<and> length es = card (set (edges g)))
       \<and> (\<exists>ps. field (serialize_graph h g) ''proof_edges'' = Some (Arr ps)
                \<and> length ps = card (set (proof_edges g)))"
  using assms
  by (simp add: serialize_graph_def Let_def wf_graph_def distinct_card)

theorem serialize_graph_counts_witness:
  "wf_graph example_graph
   \<and> field (serialize_graph example_heap example_graph) ''node_count'' = Some (Verbatim (PInt 3))
   \<and> field (serialize_graph example_heap example_graph) ''edge_count'' = Some (Verbatim (PInt 1))
   \<and> field (serialize_graph example_heap example_graph) ''proof_edge_count'' = Some (Verbatim (PInt 1))
   \<and> (\<exists>ns. field (serialize_graph example_heap example_graph) ''nodes'' = Some (Arr ns)
            \<and> length ns = 3)"
proof -
  have w: "wf_graph example_graph"
    by (simp add: wf_graph_def example_graph_def)
  have c: "card (set (nodes example_graph)) = 3" "card (set (edges example_graph)) = 1"
    "card (set (proof_edges example_graph)) = 1"
    by (simp_all add: example_graph_def)
  from serialize_graph_counts [OF w, of example_heap] w c show ?thesis by simp
qed

section \<open>Induced subgraphs\<close>

lemma fold_edges_set:
  "set (edges (fold (\<lambda>(s, t) sb. if P s t then sb\<lparr>edges := set_add (s, t) (edges sb)\<rparr> else sb) es sb0))
     = set (edges sb0) \<union> {(s, t). (s, t) \<in> set es \<and> P s t}"
  by (induction es arbitrary: sb0) (auto simp: set_add_def split: if_splits)

lemma fold_edges_frame:
  "nodes (fold (\<lambda>(s, t) sb. if P s t then sb\<lparr>edges := set_add (s, t) (edges sb)\<rparr> else sb) es sb0)
     = nodes sb0"
  "proof_edges (fold (\<lambda>(s, t) sb. if P s t then sb\<lparr>edges := set_add (s, t) (edges sb)\<rparr> else sb) es sb0)
     = proof_edges sb0"
  by (induction es arbitrary: sb0) (auto simp: set_add_def split: if_splits)

lemma fold_proof_edges_set:
  "set (proof_edges (fold (\<lambda>(s, t) sb. if P s t then sb\<lparr>proof_edges := set_add (s, t) (proof_edges sb)\<rparr> else sb) es sb0))
     = set (proof_edges sb0) \<union> {(s, t). (s, t) \<in> set es \<and> P s t}"
  by (induction es arbitrary: sb0) (auto simp: set_add_def split: if_splits)

lemma fold_proof_edges_frame:
  "nodes (fold (\<lambda>(s, t) sb. if P s t then sb\<lparr>proof_edges := set_add (s, t) (proof_edges sb)\<rparr> else sb) es sb0)
     = nodes sb0"
  "edges (fold (\<lambda>(s, t) sb. if P s t then sb\<lparr>proof_edges := set_add (s, t) (proof_edges sb)\<rparr> else sb) es sb0)
     = edges sb0"
  by (induction es arbitrary: sb0) (auto simp: set_add_def split: if_splits)

lemma subgraph_Some:
  assumes "n \<in> set (nodes g)"
  shows "\<exists>sub. subgraph anc g n = Some sub
           \<and> nodes sub = set_union (anc g n) [n]
           \<and> set (edges sub) = {(s, t). (s, t) \<in> set (edges g)
                                  \<and> s \<in> set (anc g n) \<union> {n} \<and> t \<in> set (anc g n) \<union> {n}}
           \<and> set (proof_edges sub) = {(s, t). (s, t) \<in> set (proof_edges g)
                                  \<and> s \<in> set (anc g n) \<union> {n} \<and> t \<in> set (anc g n) \<union> {n}}"
  using assms
  by (simp add: subgraph_def Let_def fold_edges_set fold_edges_frame fold_proof_edges_set
        fold_proof_edges_frame DepGraph_def set_union_def)

lemma singleton_length: "distinct xs \<Longrightarrow> set xs = {x} \<Longrightarrow> length xs = 1"
  by (metis distinct_card card.empty card_insert_disjoint empty_iff finite.emptyI One_nat_def)

text \<open>
  Claim C6. For a node that is not in the graph, \<open>subgraph\<close> returns \<open>None\<close>. Otherwise it
  returns a graph whose nodes are the ancestors of the node and the node itself, and whose
  edges and proof edges are exactly those of the graph with both ends among these nodes.
  In \<open>make_subgraph_html\<close>, the iteration for a node whose subgraph holds only the node
  itself renders nothing and adds no file: the loop continues with the same files and
  the same disk.
\<close>

theorem subgraph_induced:
  "(n \<notin> set (nodes g) \<longrightarrow> subgraph anc g n = None)
   \<and> (n \<in> set (nodes g) \<longrightarrow>
        (\<exists>sub. subgraph anc g n = Some sub
           \<and> distinct (nodes sub)
           \<and> set (nodes sub) = set (anc g n) \<union> {n}
           \<and> set (edges sub) = {(s, t). (s, t) \<in> set (edges g)
                                  \<and> s \<in> set (nodes sub) \<and> t \<in> set (nodes sub)}
           \<and> set (proof_edges sub) = {(s, t). (s, t) \<in> set (proof_edges g)
                                  \<and> s \<in> set (nodes sub) \<and> t \<in> set (nodes sub)}))
   \<and> (\<forall>sub. subgraph anc g n = Some sub \<and> set (nodes sub) = {n} \<longrightarrow>
          subgraph_nodes_loop w anc h tpl g (n # ns) files dk
            = subgraph_nodes_loop w anc h tpl g ns files dk)"
proof (intro conjI impI allI)
  assume "n \<notin> set (nodes g)"
  then show "subgraph anc g n = None" by (simp add: subgraph_def)
next
  assume "n \<in> set (nodes g)"
  from subgraph_Some [OF this, of anc] obtain sub where
    s: "subgraph anc g n = Some sub" "nodes sub = set_union (anc g n) [n]"
       "set (edges sub) = {(s, t). (s, t) \<in> set (edges g)
                                  \<and> s \<in> set (anc g n) \<union> {n} \<and> t \<in> set (anc g n) \<union> {n}}"
       "set (proof_edges sub) = {(s, t). (s, t) \<in> set (proof_edges g)
                                  \<and> s \<in> set (anc g n) \<union> {n} \<and> t \<in> set (anc g n) \<union> {n}}"
    by blast
  have ns: "set (nodes sub) = set (anc g n) \<union> {n}" and d: "distinct (nodes sub)"
    using s(2) by (simp_all add: set_union_def)
  show "\<exists>sub. subgraph anc g n = Some sub
           \<and> distinct (nodes sub)
           \<and> set (nodes sub) = set (anc g n) \<union> {n}
           \<and> set (edges sub) = {(s, t). (s, t) \<in> set (edges g)
                                  \<and> s \<in> set (nodes sub) \<and> t \<in> set (nodes sub)}
           \<and> set (proof_edges sub) = {(s, t). (s, t) \<in> set (proof_edges g)
                                  \<and> s \<in> set (nodes sub) \<and> t \<in> set (nodes sub)}"
    using s(1) d ns s(3,4) by simp
next
  fix sub
  assume a: "subgraph anc g n = Some sub \<and> set (nodes sub) = {n}"
  then have "n \<in> set (nodes g)" by (auto simp: subgraph_def split: if_splits)
  from subgraph_Some [OF this, of anc] a have "nodes sub = set_union (anc g n) [n]" by auto
  then have "distinct (nodes sub)" by (simp add: set_union_def)
  with a have "length (nodes sub) = 1" by (simp add: singleton_length)
  with a show "subgraph_nodes_loop w anc h tpl g (n # ns) files dk
            = subgraph_nodes_loop w anc h tpl g ns files dk"
    by simp
qed

theorem subgraph_induced_witness:
  "2 \<notin> set (nodes example_graph) \<and> subgraph example_anc example_graph 2 = None
   \<and> 1 \<in> set (nodes example_graph)
   \<and> (\<exists>sub. subgraph example_anc example_graph 1 = Some sub
          \<and> set (nodes sub) = {0, 1, 3} \<and> set (edges sub) = {(0, 1)}
          \<and> set (proof_edges sub) = {(3, 1)})
   \<and> subgraph example_anc example_graph 0 = Some \<lparr>nodes = [0], edges = [], proof_edges = []\<rparr>
   \<and> subgraph_nodes_loop failing_world example_anc example_heap ''tpl'' example_graph [0] []
        Map.empty = (Inr [], Map.empty)"
proof -
  have a: "2 \<notin> set (nodes example_graph)" and b: "1 \<in> set (nodes example_graph)"
    by (simp_all add: example_graph_def)
  have n: "subgraph example_anc example_graph 2 = None"
    using subgraph_induced [of 2 example_graph example_anc] a by blast
  from subgraph_induced [of 1 example_graph example_anc] b
  obtain sub where s: "subgraph example_anc example_graph 1 = Some sub"
    "set (nodes sub) = set (example_anc example_graph 1) \<union> {1}"
    "set (edges sub) = {(s, t). (s, t) \<in> set (edges example_graph)
                                  \<and> s \<in> set (nodes sub) \<and> t \<in> set (nodes sub)}"
    "set (proof_edges sub) = {(s, t). (s, t) \<in> set (proof_edges example_graph)
                                  \<and> s \<in> set (nodes sub) \<and> t \<in> set (nodes sub)}"
    by blast
  have s2: "set (nodes sub) = {0, 1, 3}"
    using s(2) by (auto simp: example_anc_def)
  have s3: "set (edges sub) = {(0, 1)}"
    unfolding s(3) s2 by (auto simp: example_graph_def)
  have s4: "set (proof_edges sub) = {(3, 1)}"
    unfolding s(4) s2 by (auto simp: example_graph_def)
  have z: "subgraph example_anc example_graph 0 = Some \<lparr>nodes = [0], edges = [], proof_edges = []\<rparr>"
    by (simp add: subgraph_def example_anc_def example_graph_def set_union_def DepGraph_def)
  have "subgraph_nodes_loop failing_world example_anc example_heap ''tpl'' example_graph (0 # []) []
            Map.empty
          = subgraph_nodes_loop failing_world example_anc example_heap ''tpl'' example_graph [] []
              Map.empty"
    using subgraph_induced [of 0 example_graph example_anc failing_world example_heap "''tpl''"
            "[]" "[]" Map.empty] z
    by simp
  then have l: "subgraph_nodes_loop failing_world example_anc example_heap ''tpl'' example_graph [0] []
          Map.empty = (Inr [], Map.empty)"
    by simp
  from a n b s(1) s2 s3 s4 z l show ?thesis by blast
qed

section \<open>Exceptions of the export and of the subgraph generation\<close>








section \<open>Colors of a node\<close>

lemma color_of_update:
  "key \<noteq> k \<Longrightarrow> color_of (AList.update k v cs) key = color_of cs key"
  by (simp add: color_of_def update_conv')

text \<open>
  Claim C8. The border color is the first that applies of \<open>mathlib\<close>, \<open>stated\<close> (leanok),
  \<open>can_state\<close> and \<open>not_ready\<close>, and the empty string when no flag holds. For a node of kind
  \<open>definition\<close> the fill color is empty or one of the colors \<open>proved\<close>, \<open>can_prove\<close> and
  \<open>defined\<close>; it depends neither on the node's \<open>fully_proved\<close> flag nor on the color
  \<open>fully_proved\<close> of the table, and with the default table it is never that color. A node
  with \<open>notready\<close> and no other flag has the border color \<open>not_ready\<close> and an empty fill.
\<close>

theorem colorizer_priorities:
  "(truthy (mathlibok (ud h n)) \<longrightarrow> colorizer cs h n = color_of cs ''mathlib'')
   \<and> (\<not> truthy (mathlibok (ud h n)) \<and> truthy (leanok (ud h n)) \<longrightarrow>
         colorizer cs h n = color_of cs ''stated'')
   \<and> (\<not> truthy (mathlibok (ud h n)) \<and> \<not> truthy (leanok (ud h n)) \<and> truthy (can_state (ud h n)) \<longrightarrow>
         colorizer cs h n = color_of cs ''can_state'')
   \<and> (\<not> truthy (mathlibok (ud h n)) \<and> \<not> truthy (leanok (ud h n)) \<and> \<not> truthy (can_state (ud h n))
        \<and> truthy (notready (ud h n)) \<longrightarrow>
         colorizer cs h n = color_of cs ''not_ready'')
   \<and> (\<not> truthy (mathlibok (ud h n)) \<and> \<not> truthy (leanok (ud h n)) \<and> \<not> truthy (can_state (ud h n))
        \<and> \<not> truthy (notready (ud h n)) \<longrightarrow>
         colorizer cs h n = Inr '''')
   \<and> (kind (h n) = ''definition'' \<longrightarrow>
         fillcolorizer cs h n \<in> {Inr '''', color_of cs ''proved'', color_of cs ''can_prove'',
                                  color_of cs ''defined''}
       \<and> fillcolorizer (AList.update ''fully_proved'' c cs)
            (set_ud n (\<lambda>u. u\<lparr>fully_proved := b\<rparr>) h) n = fillcolorizer cs h n
       \<and> fillcolorizer default_colors h n \<noteq> color_of default_colors ''fully_proved'')
   \<and> (truthy (notready (ud h n)) \<and> \<not> truthy (mathlibok (ud h n)) \<and> \<not> truthy (leanok (ud h n))
        \<and> \<not> truthy (can_state (ud h n)) \<and> \<not> truthy (can_prove (ud h n))
        \<and> \<not> truthy (proved (ud h n)) \<and> \<not> truthy (fully_proved (ud h n)) \<longrightarrow>
         colorizer cs h n = color_of cs ''not_ready'' \<and> fillcolorizer cs h n = Inr '''')"
proof -
  have border:
    "(truthy (mathlibok (ud h n)) \<longrightarrow> colorizer cs h n = color_of cs ''mathlib'')
   \<and> (\<not> truthy (mathlibok (ud h n)) \<and> truthy (leanok (ud h n)) \<longrightarrow>
         colorizer cs h n = color_of cs ''stated'')
   \<and> (\<not> truthy (mathlibok (ud h n)) \<and> \<not> truthy (leanok (ud h n)) \<and> truthy (can_state (ud h n)) \<longrightarrow>
         colorizer cs h n = color_of cs ''can_state'')
   \<and> (\<not> truthy (mathlibok (ud h n)) \<and> \<not> truthy (leanok (ud h n)) \<and> \<not> truthy (can_state (ud h n))
        \<and> truthy (notready (ud h n)) \<longrightarrow>
         colorizer cs h n = color_of cs ''not_ready'')
   \<and> (\<not> truthy (mathlibok (ud h n)) \<and> \<not> truthy (leanok (ud h n)) \<and> \<not> truthy (can_state (ud h n))
        \<and> \<not> truthy (notready (ud h n)) \<longrightarrow>
         colorizer cs h n = Inr '''')"
    by (simp add: colorizer_def Let_def)
  have fill1: "kind (h n) = ''definition'' \<longrightarrow>
         fillcolorizer cs h n \<in> {Inr '''', color_of cs ''proved'', color_of cs ''can_prove'',
                                  color_of cs ''defined''}"
    by (auto simp: fillcolorizer_def Let_def split: sum.splits)
  have fill2: "kind (h n) = ''definition'' \<longrightarrow>
         fillcolorizer (AList.update ''fully_proved'' c cs)
            (set_ud n (\<lambda>u. u\<lparr>fully_proved := b\<rparr>) h) n = fillcolorizer cs h n"
    by (auto simp: fillcolorizer_def Let_def ud_set_ud set_ud_attrs color_of_update split: sum.splits)
  have fill3: "kind (h n) = ''definition'' \<longrightarrow>
         fillcolorizer default_colors h n \<noteq> color_of default_colors ''fully_proved''"
    by (auto simp: fillcolorizer_def Let_def color_of_def default_colors_def split: sum.splits)
  have scen: "truthy (notready (ud h n)) \<and> \<not> truthy (mathlibok (ud h n)) \<and> \<not> truthy (leanok (ud h n))
        \<and> \<not> truthy (can_state (ud h n)) \<and> \<not> truthy (can_prove (ud h n))
        \<and> \<not> truthy (proved (ud h n)) \<and> \<not> truthy (fully_proved (ud h n)) \<longrightarrow>
         colorizer cs h n = color_of cs ''not_ready'' \<and> fillcolorizer cs h n = Inr ''''"
    by (simp add: colorizer_def fillcolorizer_def Let_def)
  from border fill1 fill2 fill3 scen show ?thesis by blast
qed

lemmas color_defs = color_heap_def fresh_heap_def empty_userdata_def ud_def truthy_def

theorem colorizer_priorities_witness:
  "truthy (mathlibok (ud color_heap 0)) \<and> colorizer default_colors color_heap 0 = Inr ''darkgreen''
   \<and> \<not> truthy (mathlibok (ud color_heap 1)) \<and> truthy (leanok (ud color_heap 1))
   \<and> colorizer default_colors color_heap 1 = Inr ''green''
   \<and> \<not> truthy (leanok (ud color_heap 2)) \<and> truthy (can_state (ud color_heap 2))
   \<and> colorizer default_colors color_heap 2 = Inr ''blue''
   \<and> \<not> truthy (notready (ud color_heap 4)) \<and> colorizer default_colors color_heap 4 = Inr ''''
   \<and> kind (color_heap 1) = ''definition'' \<and> truthy (fully_proved (ud color_heap 1))
   \<and> fillcolorizer default_colors color_heap 1 \<noteq> Inr ''#1CAC78''
   \<and> truthy (notready (ud color_heap 3))
   \<and> colorizer default_colors color_heap 3 = Inr ''#FFAA33''
   \<and> fillcolorizer default_colors color_heap 3 = Inr ''''"
proof -
  have c: "color_of default_colors ''mathlib'' = Inr ''darkgreen''"
    "color_of default_colors ''stated'' = Inr ''green''"
    "color_of default_colors ''can_state'' = Inr ''blue''"
    "color_of default_colors ''not_ready'' = Inr ''#FFAA33''"
    "color_of default_colors ''fully_proved'' = Inr ''#1CAC78''"
    by (simp_all add: color_of_def default_colors_def)
  have f0: "truthy (mathlibok (ud color_heap 0))"
    by (simp add: color_defs)
  have f1: "\<not> truthy (mathlibok (ud color_heap 1))" "truthy (leanok (ud color_heap 1))"
    "kind (color_heap 1) = ''definition''" "truthy (fully_proved (ud color_heap 1))"
    by (simp_all add: color_defs)
  have f2: "\<not> truthy (mathlibok (ud color_heap 2))" "\<not> truthy (leanok (ud color_heap 2))"
    "truthy (can_state (ud color_heap 2))"
    by (simp_all add: color_defs)
  have f3: "truthy (notready (ud color_heap 3))" "\<not> truthy (mathlibok (ud color_heap 3))"
    "\<not> truthy (leanok (ud color_heap 3))" "\<not> truthy (can_state (ud color_heap 3))"
    "\<not> truthy (can_prove (ud color_heap 3))" "\<not> truthy (proved (ud color_heap 3))"
    "\<not> truthy (fully_proved (ud color_heap 3))"
    by (simp_all add: color_defs)
  have f4: "\<not> truthy (mathlibok (ud color_heap 4))" "\<not> truthy (leanok (ud color_heap 4))"
    "\<not> truthy (can_state (ud color_heap 4))" "\<not> truthy (notready (ud color_heap 4))"
    by (simp_all add: color_defs)
  have r0: "colorizer default_colors color_heap 0 = Inr ''darkgreen''"
    using colorizer_priorities [of color_heap 0 default_colors] f0 c by simp
  have r1: "colorizer default_colors color_heap 1 = Inr ''green''"
    "fillcolorizer default_colors color_heap 1 \<noteq> Inr ''#1CAC78''"
    using colorizer_priorities [of color_heap 1 default_colors] f1 c by simp_all
  have r2: "colorizer default_colors color_heap 2 = Inr ''blue''"
    using colorizer_priorities [of color_heap 2 default_colors] f2 c by simp
  have r3: "colorizer default_colors color_heap 3 = Inr ''#FFAA33''"
    "fillcolorizer default_colors color_heap 3 = Inr ''''"
    using colorizer_priorities [of color_heap 3 default_colors] f3 c by simp_all
  have r4: "colorizer default_colors color_heap 4 = Inr ''''"
    using colorizer_priorities [of color_heap 4 default_colors] f4 by simp
  from f0 f1 f2 f3 f4 r0 r1 r2 r3 r4 show ?thesis by blast
qed

section \<open>Keys of the exported structure\<close>

text \<open>
  Claim C9. Without a \<open>dep_graph\<close> entry in the document's userdata, the exported structure
  has exactly the keys \<open>project_metadata\<close> and \<open>lean_decls\<close>. With one, the key \<open>dep_graph\<close>
  is added; its value has the keys \<open>colors\<close>, \<open>legend\<close> and \<open>graphs\<close>: a dictionary with
  the color table's keys, a list with one entry for each legend item, and a dictionary
  with one serialized graph for each section.
\<close>

theorem export_data_keys:
  "(dep_graph d = None \<longrightarrow> keys (export_data d) = [''project_metadata'', ''lean_decls''])
   \<and> (\<forall>dg. dep_graph d = Some dg \<longrightarrow>
         keys (export_data d) = [''project_metadata'', ''lean_decls'', ''dep_graph'']
       \<and> (\<exists>j cs ls gs. field (export_data d) ''dep_graph'' = Some j
             \<and> keys j = [''colors'', ''legend'', ''graphs'']
             \<and> field j ''colors'' = Some (Obj cs)
             \<and> map fst cs = map fst (case colors dg of None \<Rightarrow> [] | Some c \<Rightarrow> c)
             \<and> field j ''legend'' = Some (Arr ls)
             \<and> length ls = length (case legend dg of None \<Rightarrow> [] | Some l \<Rightarrow> l)
             \<and> field j ''graphs'' = Some (Obj gs)
             \<and> map fst gs = map fst (case graphs dg of None \<Rightarrow> [] | Some g \<Rightarrow> g)))"
  by (auto simp: export_data_def split: option.splits)

theorem export_data_keys_witness:
  "dep_graph (example_document\<lparr>dep_graph := None\<rparr>) = None
   \<and> keys (export_data (example_document\<lparr>dep_graph := None\<rparr>)) = [''project_metadata'', ''lean_decls'']
   \<and> dep_graph example_document \<noteq> None
   \<and> keys (export_data example_document) = [''project_metadata'', ''lean_decls'', ''dep_graph'']
   \<and> (\<exists>j gs. field (export_data example_document) ''dep_graph'' = Some j
          \<and> keys j = [''colors'', ''legend'', ''graphs'']
          \<and> field j ''graphs'' = Some (Obj gs) \<and> map fst gs = [''Chapter 1''])"
proof -
  have a: "dep_graph (example_document\<lparr>dep_graph := None\<rparr>) = None"
    by simp
  obtain dg where b: "dep_graph example_document = Some dg"
    and g: "graphs dg = Some [(''Chapter 1'', example_graph)]"
    by (simp add: example_document_def)
  have k: "keys (export_data (example_document\<lparr>dep_graph := None\<rparr>)) = [''project_metadata'', ''lean_decls'']"
    using export_data_keys [of "example_document\<lparr>dep_graph := None\<rparr>"] a by blast
  from export_data_keys [of example_document] b
  obtain j cs ls gs where j: "keys (export_data example_document) = [''project_metadata'', ''lean_decls'', ''dep_graph'']"
    "field (export_data example_document) ''dep_graph'' = Some j"
    "keys j = [''colors'', ''legend'', ''graphs'']"
    "field j ''graphs'' = Some (Obj gs)"
    "map fst gs = map fst (case graphs dg of None \<Rightarrow> [] | Some g \<Rightarrow> g)"
    by blast
  have m: "map fst gs = [''Chapter 1'']"
    using j(5) g by simp
  from a k b j(1-4) m show ?thesis by auto
qed

section \<open>The flags \<open>mathlibok\<close> and \<open>leanok\<close>\<close>

lemma flags_invariant_set_ud:
  "flags_invariant h \<Longrightarrow>
   (truthy (mathlibok (f (ud h n))) \<longrightarrow> truthy (leanok (f (ud h n)))) \<Longrightarrow>
   flags_invariant (set_ud n f h)"
  by (simp add: flags_invariant_def ud_set_ud)

lemma digest_invariant:
  "flags_invariant (heap d) \<Longrightarrow> flags_invariant (heap (fst (digest n c d)))"
proof (cases c)
  case (Graphcolor x y z)
  assume "flags_invariant (heap d)"
  then show ?thesis using Graphcolor by (simp split: option.splits)
next
  case Mathlibok
  assume "flags_invariant (heap d)"
  then show ?thesis using Mathlibok
    by (simp add: flags_invariant_def ud_set_ud truthy_def)
qed (simp_all add: flags_invariant_def ud_set_ud truthy_def Let_def)

lemma digest_all_invariant:
  "flags_invariant (heap d) \<Longrightarrow> flags_invariant (heap (fst (digest_all cs d)))"
proof (induction cs arbitrary: d)
  case Nil
  then show ?case by simp
next
  case (Cons a cs)
  obtain n c where a: "a = (n, c)" by (cases a)
  obtain d' lg r where s: "digest n c d = (d', lg, r)" by (cases "digest n c d")
  have i: "flags_invariant (heap d')"
    using digest_invariant [OF Cons.prems, of n c] s by simp
  show ?case
  proof (cases r)
    case None
    then show ?thesis using Cons.IH [OF i] a s by simp
  next
    case (Some e)
    then show ?thesis using i a s by simp
  qed
qed

lemma graphs_loop_invariant:
  "flags_invariant h \<Longrightarrow> flags_invariant (graphs_loop anc dh gs h)"
  by (simp add: flags_invariant_def graphs_loop_authored)

lemma make_lean_data_heap:
  "flags_invariant (heap d) \<Longrightarrow> flags_invariant (heap (fst (make_lean_data anc d)))"
  by (simp add: make_lean_data_def Let_def graphs_loop_invariant split: option.splits)

text \<open>
  Claim C10. In a heap of nodes without flags, and after every command and every run of
  commands from a heap in which it holds, and after \<open>make_lean_data\<close>: a node whose
  \<open>mathlibok\<close> flag is set has its \<open>leanok\<close> flag set.
\<close>

theorem mathlibok_implies_leanok:
  "flags_invariant fresh_heap
   \<and> (flags_invariant (heap d) \<longrightarrow>
        flags_invariant (heap (fst (digest n c d)))
      \<and> flags_invariant (heap (fst (digest_all cs d)))
      \<and> flags_invariant (heap (fst (make_lean_data anc d))))"
  using digest_invariant [of d n c] digest_all_invariant [of d cs] make_lean_data_heap [of d anc]
  by (simp add: flags_invariant_def fresh_heap_def ud_def empty_userdata_def truthy_def)

theorem mathlibok_implies_leanok_witness:
  "flags_invariant (heap (example_document\<lparr>heap := fresh_heap\<rparr>))
   \<and> flags_invariant (heap (fst (digest 0 Mathlibok (example_document\<lparr>heap := fresh_heap\<rparr>))))
   \<and> flags_invariant (heap (fst (digest_all [(0, Mathlibok), (1, Leanok), (0, Notready)]
                                   (example_document\<lparr>heap := fresh_heap\<rparr>))))
   \<and> flags_invariant (heap (fst (make_lean_data example_anc (example_document\<lparr>heap := fresh_heap\<rparr>))))
   \<and> truthy (mathlibok (ud (heap (fst (digest_all [(0, Mathlibok), (1, Leanok), (0, Notready)]
                                   (example_document\<lparr>heap := fresh_heap\<rparr>)))) 0))
   \<and> truthy (leanok (ud (heap (fst (digest_all [(0, Mathlibok), (1, Leanok), (0, Notready)]
                                   (example_document\<lparr>heap := fresh_heap\<rparr>)))) 0))"
proof -
  let ?d = "example_document\<lparr>heap := fresh_heap\<rparr>"
  let ?cs = "[(0, Mathlibok), (1, Leanok), (0, Notready)]"
  note t = mathlibok_implies_leanok [of ?d 0 Mathlibok ?cs example_anc]
  have a: "flags_invariant (heap ?d)" using t by simp
  have m: "truthy (mathlibok (ud (heap (fst (digest_all ?cs ?d))) 0))"
    by (simp add: set_ud_def ud_def truthy_def fresh_heap_def)
  have i: "flags_invariant (heap (fst (digest_all ?cs ?d)))" using t a by blast
  then have l: "truthy (leanok (ud (heap (fst (digest_all ?cs ?d))) 0))"
    using m by (simp add: flags_invariant_def)
  from t a m l show ?thesis by blast
qed

end
